theory Spec2Isabelle
  imports Main "HOL-Library.Char_ord" "HOL-Library.List_Lexorder" "HOL-Library.AList"
    "HOL-Library.Multiset" "HOL-Library.Word"
begin

section \<open>Python values handled by \<open>DictStorage\<close>\<close>

text \<open>
  The module \<open>state_dict_to_h5/module.py\<close> stores nested Python data in an HDF5 file
  through h5py. The values it looks at are modelled by the datatype \<open>pyval\<close>; text is
  represented by its UTF-8 bytes (so \<open>str.encode\<close> and \<open>bytes.decode\<close> are the identity
  on the representation), a float by its 64 bits, and a tensor by its shape and its flat
  list of elements. \<open>VOther\<close> stands for an object of any other class (a set, a bytes
  object, a user class); \<open>VRaw\<close> is what \<open>data[()]\<close> hands out for a dataset with an
  unknown type hint: a numpy array, a numpy scalar or a bytes object.
\<close>

datatype scalar = SBool bool | SInt int | SFloat "64 word"

datatype payload =
    Array "nat list" "scalar list"
  | ObjArray int
  | Bytes string

datatype key = KBool bool | KInt int | KStr string | KOther

datatype pyval =
    VNone
  | VBool bool
  | VInt int
  | VFloat "64 word"
  | VStr string
  | VTensor "nat list" "scalar list"
  | VDict "(key \<times> pyval) list"
  | VList "pyval list"
  | VTuple "pyval list"
  | VRaw payload
  | VOther

text \<open>
  Exceptions are values. \<open>ValueError\<close> and \<open>KeyError\<close> carry the message of the
  \<open>raise\<close> statement in the module; the other constructors are exceptions raised by the
  interpreter, numpy or h5py on behalf of the module:
  \<open>IntLiteralError\<close> is the \<open>ValueError\<close> of \<open>int(s)\<close>, \<open>DigitLimit\<close> the one of
  \<open>str(n)\<close> for an integer of more digits than the interpreter converts,
  \<open>AmbiguousTruth\<close> the one of the truth value of an array that has not exactly one
  entry, \<open>ItemError\<close> the one of \<open>.item()\<close> on an array that has not exactly one
  element, \<open>NameExists\<close> the one of \<open>create_group\<close>/\<open>create_dataset\<close> on a name that
  is taken, \<open>NotStorable\<close> the refusal of \<open>create_dataset\<close> for data HDF5 cannot hold,
  \<open>NoAttribute\<close> the \<open>KeyError\<close> of \<open>attrs["type"]\<close> on a node without that attribute,
  \<open>NoSuchObject\<close> the \<open>KeyError\<close> of \<open>position[name]\<close>, and \<open>DanglingHandle\<close> the use
  of a handle whose object is gone.
\<close>

datatype error =
    ValueError string
  | KeyError string
  | IndexError
  | TypeError
  | AttributeError
  | IntLiteralError
  | DigitLimit
  | AmbiguousTruth
  | ItemError
  | NameExists
  | NotStorable
  | NoAttribute
  | NoSuchObject
  | DanglingHandle

section \<open>The HDF5 tree as h5py shows it\<close>

text \<open>
  A node is a dataset (its data and its \<open>"type"\<close> attribute, if set) or a group (its
  members and its \<open>"type"\<close> attribute). The members of a group are listed in the order in
  which h5py iterates over them. The model is of a file opened with the defaults of h5py:
  a group is then iterated in ascending order of the names, and \<open>create_group\<close>, called
  as the module calls it, makes groups of that kind too, so \<open>add_member\<close> puts a new
  member at its place in the byte-wise lexicographic order of the names. (A file opened
  with \<open>track_order=True\<close> iterates its root group in creation order; that is not
  modelled.)

  A name is the name of one member: h5py reads a name that holds \<open>/\<close> as a path through
  several groups, and that reading is not modelled. \<open>member_name\<close> says which texts are
  names in this sense; what is stated below about all the keys of a path is stated for
  such names.
\<close>

datatype node =
    Dataset payload "string option"
  | Group "(string \<times> node) list" "string option"

definition member_name :: "string \<Rightarrow> bool" where
  "member_name s = (s \<noteq> [] \<and> s \<noteq> ''.'' \<and> CHR ''/'' \<notin> set s \<and> CHR 0x00 \<notin> set s)"

definition add_member :: "string \<Rightarrow> node \<Rightarrow> (string \<times> node) list \<Rightarrow> (string \<times> node) list" where
  "add_member name n kids = insort_key fst (name, n) kids"

text \<open>
  \<open>name in position\<close>. A dataset has no membership test of its own, so Python iterates
  over it and compares each entry with the name: a scalar dataset refuses to be iterated;
  the entries of a one-dimensional dataset are numbers, none equal to a text; the entries
  of a dataset of more dimensions are arrays, and the comparison of an array with the
  name has a truth value only when the array has one entry.
\<close>

fun contains :: "node \<Rightarrow> string \<Rightarrow> error + bool" where
  "contains (Group kids t) name = Inr (map_of kids name \<noteq> None)"
| "contains (Dataset (Array [] es) t) name = Inl TypeError"
| "contains (Dataset (Array [n] es) t) name = Inr False"
| "contains (Dataset (Array (n # m # ds) es) t) name =
     (if n = 0 \<or> prod_list (m # ds) = 1 then Inr False else Inl AmbiguousTruth)"
| "contains (Dataset (ObjArray i) t) name = Inl TypeError"
| "contains (Dataset (Bytes s) t) name = Inl TypeError"

text \<open>\<open>position[name]\<close>.\<close>

fun getitem :: "node \<Rightarrow> string \<Rightarrow> error + node" where
  "getitem (Group kids t) name =
     (case map_of kids name of None \<Rightarrow> Inl NoSuchObject | Some c \<Rightarrow> Inr c)"
| "getitem (Dataset p t) name = Inl TypeError"

text \<open>The effect on \<open>position\<close> of a mutation made through \<open>position[name]\<close>.\<close>

fun put_member :: "node \<Rightarrow> string \<Rightarrow> node \<Rightarrow> node" where
  "put_member (Group kids t) name c = Group (AList.update name c kids) t"
| "put_member (Dataset p t) name c = Dataset p t"

text \<open>\<open>node.attrs["type"]\<close>, read and written.\<close>

fun type_attr :: "node \<Rightarrow> string option" where
  "type_attr (Group kids t) = t"
| "type_attr (Dataset p t) = t"

fun set_type :: "node \<Rightarrow> string \<Rightarrow> node" where
  "set_type (Group kids t) v = Group kids (Some v)"
| "set_type (Dataset p t) v = Dataset p (Some v)"

text \<open>\<open>position[name].attrs["type"] = v\<close>.\<close>

definition set_member_type :: "node \<Rightarrow> string \<Rightarrow> string \<Rightarrow> error + node" where
  "set_member_type position name v =
     (case getitem position name of
        Inl e \<Rightarrow> Inl e
      | Inr c \<Rightarrow> Inr (put_member position name (set_type c v)))"

text \<open>\<open>position.create_group(name)\<close>.\<close>

fun create_group :: "node \<Rightarrow> string \<Rightarrow> error + node" where
  "create_group (Group kids t) name =
     (if map_of kids name \<noteq> None then Inl NameExists
      else Inr (Group (add_member name (Group [] None) kids) t))"
| "create_group (Dataset p t) name = Inl AttributeError"

text \<open>
  \<open>position.create_dataset(name, data=d)\<close>. numpy holds a Python integer outside
  \<open>-2^63 .. 2^64 - 1\<close> as an array of objects, which HDF5 has no type for (refused
  before the name is looked at), and a byte string is written as a variable-length
  string, which cannot hold a NUL (refused when the data is written).
\<close>

fun has_hdf5_type :: "payload \<Rightarrow> bool" where
  "has_hdf5_type (ObjArray i) = False"
| "has_hdf5_type d = True"

fun writable :: "payload \<Rightarrow> bool" where
  "writable (Bytes s) = (CHR 0x00 \<notin> set s)"
| "writable d = True"

fun create_dataset :: "node \<Rightarrow> string \<Rightarrow> payload \<Rightarrow> error + node" where
  "create_dataset (Group kids t) name d =
     (if \<not> has_hdf5_type d then Inl NotStorable
      else if map_of kids name \<noteq> None then Inl NameExists
      else if \<not> writable d then Inl NotStorable
      else Inr (Group (add_member name (Dataset d None) kids) t))"
| "create_dataset (Dataset p t) name d = Inl AttributeError"

text \<open>\<open>del position[name]\<close>.\<close>

fun delitem :: "string \<Rightarrow> node \<Rightarrow> node" where
  "delitem name (Group kids t) = Group (AList.delete name kids) t"
| "delitem name (Dataset p t) = Dataset p t"

text \<open>A handle is the path of its object from the root of the file.\<close>

fun node_at :: "node \<Rightarrow> string list \<Rightarrow> node option" where
  "node_at n [] = Some n"
| "node_at (Group kids t) (i # is) =
     (case map_of kids i of None \<Rightarrow> None | Some c \<Rightarrow> node_at c is)"
| "node_at (Dataset p t) (i # is) = None"

fun update_at :: "node \<Rightarrow> string list \<Rightarrow> (node \<Rightarrow> node) \<Rightarrow> node" where
  "update_at n [] f = f n"
| "update_at (Group kids t) (i # is) f =
     (case map_of kids i of
        None \<Rightarrow> Group kids t
      | Some c \<Rightarrow> Group (AList.update i (update_at c is f) kids) t)"
| "update_at (Dataset p t) (i # is) f = Dataset p t"

section \<open>Text and integers\<close>

text \<open>
  \<open>str_nat\<close> and \<open>str_int\<close> are the decimal text of a number, \<open>str_bool\<close> is
  \<open>str(b)\<close>. \<open>py_str\<close> is \<open>str(n)\<close> for an integer: the interpreter refuses to convert
  a number of more than \<open>max_str_digits\<close> digits (4300 unless it is configured
  otherwise).
\<close>

definition digit_char :: "nat \<Rightarrow> char" where
  "digit_char d = char_of (48 + d)"

fun str_nat :: "nat \<Rightarrow> string" where
  "str_nat n = (if n < 10 then [digit_char n] else str_nat (n div 10) @ [digit_char (n mod 10)])"

definition str_int :: "int \<Rightarrow> string" where
  "str_int i = (if i < 0 then CHR ''-'' # str_nat (nat (- i)) else str_nat (nat i))"

definition str_bool :: "bool \<Rightarrow> string" where
  "str_bool b = (if b then ''True'' else ''False'')"

definition max_str_digits :: nat where
  "max_str_digits = 4300"

definition py_str :: "int \<Rightarrow> error + string" where
  "py_str n =
     (if max_str_digits < length (str_nat (nat \<bar>n\<bar>)) then Inl DigitLimit else Inr (str_int n))"

text \<open>
  \<open>py_int\<close> is \<open>int(s)\<close>. On a text of ASCII characters: white space (codes 9 to 13
  and 32) is dropped at both ends, then comes an optional sign, then decimal digits,
  where single underscores may separate digits; more than \<open>max_str_digits\<close> digits are
  refused. On a text with a character outside ASCII the interpreter first replaces the
  decimal digits and the white space of every script by their ASCII counterparts,
  according to the Unicode tables it was built with; these tables are not modelled, and
  \<open>int_beyond_ascii\<close> stands for whatever \<open>int\<close> makes of such a text.
\<close>

definition is_ascii :: "char \<Rightarrow> bool" where
  "is_ascii c = ((of_char c :: nat) < 128)"

definition is_digit :: "char \<Rightarrow> bool" where
  "is_digit c = (CHR ''0'' \<le> c \<and> c \<le> CHR ''9'')"

definition digit_val :: "char \<Rightarrow> nat" where
  "digit_val c = of_char c - 48"

definition is_space :: "char \<Rightarrow> bool" where
  "is_space c = (let n = (of_char c :: nat) in (9 \<le> n \<and> n \<le> 13) \<or> n = 32)"

fun int_digits :: "string \<Rightarrow> nat \<Rightarrow> nat option" where
  "int_digits [] acc = Some acc"
| "int_digits (c # cs) acc =
     (if is_digit c then int_digits cs (acc * 10 + digit_val c)
      else if c = CHR ''_'' then
        (case cs of
           [] \<Rightarrow> None
         | d # ds \<Rightarrow> if is_digit d then int_digits ds (acc * 10 + digit_val d) else None)
      else None)"

fun int_literal :: "string \<Rightarrow> nat option" where
  "int_literal [] = None"
| "int_literal (c # cs) = (if is_digit c then int_digits cs (digit_val c) else None)"

definition int_body :: "string \<Rightarrow> error + nat" where
  "int_body t =
     (case int_literal t of
        None \<Rightarrow> Inl IntLiteralError
      | Some n \<Rightarrow>
          if max_str_digits < length (filter is_digit t) then Inl IntLiteralError else Inr n)"

definition strip :: "string \<Rightarrow> string" where
  "strip s = rev (dropWhile is_space (rev (dropWhile is_space s)))"

definition int_beyond_ascii :: "string \<Rightarrow> error + int" where
  "int_beyond_ascii = (SOME f. True)"

definition py_int :: "string \<Rightarrow> error + int" where
  "py_int s =
     (if \<not> list_all is_ascii s then int_beyond_ascii s
      else
        (case strip s of
           [] \<Rightarrow> Inl IntLiteralError
         | c # cs \<Rightarrow>
             if c = CHR ''-'' then
               (case int_body cs of Inl e \<Rightarrow> Inl e | Inr n \<Rightarrow> Inr (- int n))
             else if c = CHR ''+'' then
               (case int_body cs of Inl e \<Rightarrow> Inl e | Inr n \<Rightarrow> Inr (int n))
             else
               (case int_body (c # cs) of Inl e \<Rightarrow> Inl e | Inr n \<Rightarrow> Inr (int n))))"

definition startswith :: "string \<Rightarrow> string \<Rightarrow> bool" where
  "startswith s p = (take (length p) s = p)"

section \<open>Names of mapping keys\<close>

text \<open>The name under which \<open>recursiveInsert\<close> stores a key (lines 132 to 144; a
  \<open>bool\<close> is an instance of \<open>int\<close>), and the key \<open>recursiveFetch\<close> reads from a name
  (lines 89 to 94).\<close>

fun encodeKey :: "key \<Rightarrow> error + string" where
  "encodeKey (KBool b) = Inr (''__int__'' @ str_bool b)"
| "encodeKey (KInt i) =
     (case py_str i of Inl e \<Rightarrow> Inl e | Inr digits \<Rightarrow> Inr (''__int__'' @ digits))"
| "encodeKey (KStr s) =
     (if startswith s ''__int__'' then
        Inl (ValueError ''Keys starting with __int__ are reserved for internal use'')
      else if s = ''__emptyString__'' then
        Inl (ValueError ''__emptyString__ is reserved for internal use'')
      else if s = [] then Inr ''__emptyString__''
      else Inr s)"
| "encodeKey KOther = Inl (ValueError ''Keys must be strings or ints'')"

definition decodeKey :: "string \<Rightarrow> error + key" where
  "decodeKey i =
     (if i = ''__emptyString__'' then Inr (KStr [])
      else if startswith i ''__int__'' then
        (case py_int (drop 7 i) of Inl e \<Rightarrow> Inl e | Inr n \<Rightarrow> Inr (KInt n))
      else Inr (KStr i))"

section \<open>Serialising: \<open>fromDict\<close>\<close>

text \<open>
  The \<open>isinstance\<close> tests of \<open>pack\<close> (lines 106 to 127). A Python \<open>bool\<close> is an
  instance of \<open>int\<close>, and a numpy double (which only \<open>toDict\<close> hands out, for an unknown
  type hint) is an instance of \<open>float\<close>. \<open>np_array\<close> is \<open>np.array(data)\<close> on these
  scalars. A tensor is one that \<open>data.cpu().numpy()\<close> accepts, and the limit an
  interpreter may put on the number of digits of \<open>str\<close> and \<open>int\<close> is not modelled.
\<close>

fun is_tensor :: "pyval \<Rightarrow> bool" where
  "is_tensor (VTensor sh es) = True"
| "is_tensor v = False"

fun is_bool :: "pyval \<Rightarrow> bool" where
  "is_bool (VBool b) = True"
| "is_bool v = False"

fun is_float :: "pyval \<Rightarrow> bool" where
  "is_float (VFloat x) = True"
| "is_float (VRaw (Array [] [SFloat x])) = True"
| "is_float v = False"

fun is_int :: "pyval \<Rightarrow> bool" where
  "is_int (VInt i) = True"
| "is_int (VBool b) = True"
| "is_int v = False"

fun is_str :: "pyval \<Rightarrow> bool" where
  "is_str (VStr s) = True"
| "is_str v = False"

definition np_array_int :: "int \<Rightarrow> payload" where
  "np_array_int i = (if - (2 ^ 63) \<le> i \<and> i < 2 ^ 64 then Array [] [SInt i] else ObjArray i)"

fun np_array :: "pyval \<Rightarrow> payload" where
  "np_array (VBool b) = Array [] [SBool b]"
| "np_array (VFloat x) = Array [] [SFloat x]"
| "np_array (VInt i) = np_array_int i"
| "np_array (VRaw p) = p"
| "np_array v = Array [] []"

fun tensor_numpy :: "pyval \<Rightarrow> payload" where
  "tensor_numpy (VTensor sh es) = Array sh es"
| "tensor_numpy v = Array [] []"

fun encode_utf8 :: "pyval \<Rightarrow> payload" where
  "encode_utf8 (VStr s) = Bytes s"
| "encode_utf8 v = Bytes []"

definition pack :: "pyval \<Rightarrow> error + (payload \<times> string)" where
  "pack data =
     (if data = VNone then Inr (Array [0] [], ''None'')
      else if is_tensor data then Inr (tensor_numpy data, ''tensor'')
      else if is_bool data then Inr (np_array data, ''bool'')
      else if is_float data then Inr (np_array data, ''float'')
      else if is_int data then Inr (np_array data, ''int'')
      else if is_str data then Inr (encode_utf8 data, ''str'')
      else Inl (ValueError ''Invalid data type for serialization''))"

text \<open>The three container tests of \<open>recursiveInsert\<close> and \<open>fromDict\<close>, with the type hint
  each one writes.\<close>

fun container_type :: "pyval \<Rightarrow> string option" where
  "container_type (VDict kvs) = Some ''dict''"
| "container_type (VList xs) = Some ''list''"
| "container_type (VTuple xs) = Some ''tuple''"
| "container_type v = None"

text \<open>
  \<open>recursiveInsert\<close> (lines 128 to 186). \<open>insert_items\<close> is the loop over the keys of a
  dict, \<open>insert_elems\<close> the loop over \<open>enumerate(data)\<close>; \<open>insert_member\<close> is the body
  both loops share word for word (lines 146 to 164 with \<open>newKey\<close>, lines 168 to 186 with
  \<open>str(idx)\<close>). The node is passed in and handed back changed; an exception leaves the
  model with the exception only. The two \<open>print\<close> calls write to the console and change
  nothing in the file; they are left out.
\<close>

function recursiveInsert :: "node \<Rightarrow> pyval \<Rightarrow> error + node"
  and insert_items :: "node \<Rightarrow> (key \<times> pyval) list \<Rightarrow> error + node"
  and insert_elems :: "node \<Rightarrow> nat \<Rightarrow> pyval list \<Rightarrow> error + node"
  and insert_member :: "node \<Rightarrow> string \<Rightarrow> pyval \<Rightarrow> error + node"
where
  "recursiveInsert position data =
     (case data of
        VDict kvs \<Rightarrow> insert_items position kvs
      | VList xs \<Rightarrow> insert_elems position 0 xs
      | VTuple xs \<Rightarrow> insert_elems position 0 xs
      | _ \<Rightarrow> Inr position)"
| "insert_items position [] = Inr position"
| "insert_items position ((k, v) # rest) =
     (case encodeKey k of
        Inl e \<Rightarrow> Inl e
      | Inr newKey \<Rightarrow>
          (case insert_member position newKey v of
             Inl e \<Rightarrow> Inl e
           | Inr position' \<Rightarrow> insert_items position' rest))"
| "insert_elems position idx [] = Inr position"
| "insert_elems position idx (i # rest) =
     (case py_str (int idx) of
        Inl e \<Rightarrow> Inl e
      | Inr name \<Rightarrow>
          (case insert_member position name i of
             Inl e \<Rightarrow> Inl e
           | Inr position' \<Rightarrow> insert_elems position' (Suc idx) rest))"
| "insert_member position name v =
     (case container_type v of
        Some hint \<Rightarrow>
          (case contains position name of
             Inl e \<Rightarrow> Inl e
           | Inr present \<Rightarrow>
               (case (if present then Inr position
                      else (case create_group position name of
                              Inl e \<Rightarrow> Inl e
                            | Inr p \<Rightarrow> set_member_type p name hint)) of
                  Inl e \<Rightarrow> Inl e
                | Inr position1 \<Rightarrow>
                    (case getitem position1 name of
                       Inl e \<Rightarrow> Inl e
                     | Inr child \<Rightarrow>
                         (case recursiveInsert child v of
                            Inl e \<Rightarrow> Inl e
                          | Inr child' \<Rightarrow> Inr (put_member position1 name child')))))
      | None \<Rightarrow>
          (case pack v of
             Inl e \<Rightarrow> Inl e
           | Inr (outData, outDType) \<Rightarrow>
               (case create_dataset position name outData of
                  Inl e \<Rightarrow> Inl e
                | Inr position1 \<Rightarrow> set_member_type position1 name outDType)))"
  by pat_completeness auto
termination
  by (relation "measure (\<lambda>x. case x of
        Inl (Inl (p, v)) \<Rightarrow> 2 * size v
      | Inl (Inr (p, kvs)) \<Rightarrow> 2 * size (VDict kvs) - 1
      | Inr (Inl (p, idx, xs)) \<Rightarrow> 2 * size (VList xs) - 1
      | Inr (Inr (p, name, v)) \<Rightarrow> 2 * size v + 1)") auto

text \<open>\<open>fromDict\<close> (lines 187 to 193): the type hint of the group itself, then the walk.\<close>

definition fromDict :: "node \<Rightarrow> pyval \<Rightarrow> error + node" where
  "fromDict grp dictionary =
     recursiveInsert
       (case container_type dictionary of Some hint \<Rightarrow> set_type grp hint | None \<Rightarrow> grp)
       dictionary"

section \<open>Deserialising: \<open>toDict\<close>\<close>

text \<open>
  \<open>unpack\<close> (lines 62 to 75), on the data and the type hint of a dataset. \<open>item\<close> is
  \<open>data[()].item()\<close>, \<open>truth\<close> is Python's \<open>bool(x)\<close>. The result carries the lines
  printed on the way: the only \<open>print\<close> of \<open>toDict\<close> is the warning of the last branch.
\<close>

fun item :: "payload \<Rightarrow> error + scalar" where
  "item (Array sh [x]) = Inr x"
| "item (Array sh es) = Inl ItemError"
| "item (ObjArray i) = Inr (SInt i)"
| "item (Bytes s) = Inl AttributeError"

fun py_scalar :: "scalar \<Rightarrow> pyval" where
  "py_scalar (SBool b) = VBool b"
| "py_scalar (SInt i) = VInt i"
| "py_scalar (SFloat x) = VFloat x"

fun truth :: "scalar \<Rightarrow> bool" where
  "truth (SBool b) = b"
| "truth (SInt i) = (i \<noteq> 0)"
| "truth (SFloat x) = (x \<noteq> 0 \<and> x \<noteq> 0x8000000000000000)"

definition unknown_hint_warning :: string where
  "unknown_hint_warning =
     ''WARNING: unknown data type hint in loaded file, deserialization may not produce expected results''"

definition unpack :: "payload \<Rightarrow> string option \<Rightarrow> error + (pyval \<times> string list)" where
  "unpack d attr =
     (case attr of
        None \<Rightarrow> Inl NoAttribute
      | Some t \<Rightarrow>
          if t = ''None'' then Inr (VNone, [])
          else if t = ''float'' \<or> t = ''int'' then
            (case item d of Inl e \<Rightarrow> Inl e | Inr x \<Rightarrow> Inr (py_scalar x, []))
          else if t = ''bool'' then
            (case item d of Inl e \<Rightarrow> Inl e | Inr x \<Rightarrow> Inr (VBool (truth x), []))
          else if t = ''str'' then
            (case d of Bytes s \<Rightarrow> Inr (VStr s, []) | _ \<Rightarrow> Inl AttributeError)
          else if t = ''tensor'' then
            (case d of Array sh es \<Rightarrow> Inr (VTensor sh es, []) | _ \<Rightarrow> Inl TypeError)
          else Inr (VRaw d, [unknown_hint_warning]))"

text \<open>
  \<open>recursiveFetch\<close> (lines 76 to 100). \<open>fetch_elems\<close> is the loop \<open>for i in position\<close>
  of the list and tuple branch, with \<open>target\<close> the list built so far; \<open>fetch_items\<close> is
  the loop \<open>for i in position.keys()\<close> of the other branch, with \<open>target\<close> the dict built
  so far (an assignment to a key that is already there replaces its value in place).
  \<open>fetch_member\<close> is the test \<open>isinstance(position[i], h5py.Group)\<close> with its two
  branches, the same in both loops (lines 80 to 83 and 95 to 98).
  \<open>recursiveFetch\<close> is applied to \<open>self.group\<close> and to members that are groups only; the
  constructor of the class is documented to take a file and the names of subgroups, so a
  dataset in the place of \<open>self.group\<close> is outside its contract.
\<close>

function recursiveFetch :: "node \<Rightarrow> error + (pyval \<times> string list)"
  and fetch_elems ::
    "(string \<times> node) list \<Rightarrow> pyval list \<Rightarrow> string list \<Rightarrow> error + (pyval list \<times> string list)"
  and fetch_items ::
    "(string \<times> node) list \<Rightarrow> (key \<times> pyval) list \<Rightarrow> string list \<Rightarrow>
       error + ((key \<times> pyval) list \<times> string list)"
  and fetch_member :: "node \<Rightarrow> error + (pyval \<times> string list)"
where
  "recursiveFetch (Dataset d attr) = Inl TypeError"
| "recursiveFetch (Group kids attr) =
     (case attr of
        None \<Rightarrow> Inl NoAttribute
      | Some t \<Rightarrow>
          if t = ''list'' \<or> t = ''tuple'' then
            (case fetch_elems kids [] [] of
               Inl e \<Rightarrow> Inl e
             | Inr (target, out) \<Rightarrow>
                 Inr (if t = ''tuple'' then VTuple target else VList target, out))
          else
            (case fetch_items kids [] [] of
               Inl e \<Rightarrow> Inl e
             | Inr (target, out) \<Rightarrow> Inr (VDict target, out)))"
| "fetch_elems [] target out = Inr (target, out)"
| "fetch_elems ((i, child) # rest) target out =
     (case fetch_member child of
        Inl e \<Rightarrow> Inl e
      | Inr (v, printed) \<Rightarrow> fetch_elems rest (target @ [v]) (out @ printed))"
| "fetch_items [] target out = Inr (target, out)"
| "fetch_items ((i, child) # rest) target out =
     (case decodeKey i of
        Inl e \<Rightarrow> Inl e
      | Inr iOut \<Rightarrow>
          (case fetch_member child of
             Inl e \<Rightarrow> Inl e
           | Inr (v, printed) \<Rightarrow>
               fetch_items rest (AList.update iOut v target) (out @ printed)))"
| "fetch_member (Group kids attr) = recursiveFetch (Group kids attr)"
| "fetch_member (Dataset d attr) = unpack d attr"
  by pat_completeness auto
termination
  by (relation "measure (\<lambda>x. case x of
        Inl (Inl n) \<Rightarrow> 2 * size n
      | Inl (Inr (kids, target, out)) \<Rightarrow> 2 * size (Group kids None) - 1
      | Inr (Inl (kids, target, out)) \<Rightarrow> 2 * size (Group kids None) - 1
      | Inr (Inr n) \<Rightarrow> 2 * size n + 1)") auto

definition toDict :: "node \<Rightarrow> error + (pyval \<times> string list)" where
  "toDict grp = recursiveFetch grp"

section \<open>Access to single elements\<close>

text \<open>
  The three methods work on \<open>self.group\<close>, a handle into the file: the file is the root
  node and the handle the path \<open>grp\<close> from it. \<open>walk\<close> is the loop that \<open>fetch\<close> (lines
  27 to 30) and \<open>delete\<close> (lines 47 to 50) both run; \<open>position[()]\<close> reads a dataset and
  is refused by a group.
\<close>

fun walk :: "node \<Rightarrow> string list \<Rightarrow> error + node" where
  "walk position [] = Inr position"
| "walk position (i # rest) =
     (case contains position i of
        Inl e \<Rightarrow> Inl e
      | Inr present \<Rightarrow>
          if \<not> present then Inl (KeyError ''Key not found'')
          else (case getitem position i of Inl e \<Rightarrow> Inl e | Inr c \<Rightarrow> walk c rest))"

fun read_all :: "node \<Rightarrow> error + payload" where
  "read_all (Dataset d attr) = Inr d"
| "read_all (Group kids attr) = Inl TypeError"

definition fetch :: "node \<Rightarrow> string list \<Rightarrow> string list \<Rightarrow> error + payload" where
  "fetch file grp keys =
     (case node_at file grp of
        None \<Rightarrow> Inl DanglingHandle
      | Some g \<Rightarrow> (case walk g keys of Inl e \<Rightarrow> Inl e | Inr position \<Rightarrow> read_all position))"

text \<open>
  \<open>insert\<close> (lines 33 to 42): \<open>insert_walk\<close> creates the groups on the way and replaces
  the dataset at the last key. The value is what h5py is given as \<open>data\<close>.
\<close>

fun insert_walk :: "node \<Rightarrow> string list \<Rightarrow> payload \<Rightarrow> error + node" where
  "insert_walk position [] val = Inl IndexError"
| "insert_walk position [k] val =
     (case contains position k of
        Inl e \<Rightarrow> Inl e
      | Inr present \<Rightarrow>
          create_dataset (if present then delitem k position else position) k val)"
| "insert_walk position (i # rest) val =
     (case contains position i of
        Inl e \<Rightarrow> Inl e
      | Inr present \<Rightarrow>
          (case (if present then Inr position else create_group position i) of
             Inl e \<Rightarrow> Inl e
           | Inr position1 \<Rightarrow>
               (case getitem position1 i of
                  Inl e \<Rightarrow> Inl e
                | Inr c \<Rightarrow>
                    (case insert_walk c rest val of
                       Inl e \<Rightarrow> Inl e
                     | Inr c' \<Rightarrow> Inr (put_member position1 i c')))))"

definition insert_h5 :: "node \<Rightarrow> string list \<Rightarrow> string list \<Rightarrow> payload \<Rightarrow> error + node" where
  "insert_h5 file grp keys val =
     (case node_at file grp of
        None \<Rightarrow> Inl DanglingHandle
      | Some g \<Rightarrow>
          (case insert_walk g keys val of
             Inl e \<Rightarrow> Inl e
           | Inr g' \<Rightarrow> Inr (update_at file grp (\<lambda>_. g'))))"

text \<open>
  \<open>delete\<close> (lines 44 to 58). \<open>climb\<close> is the loop of lines 55 to 58 on the handle
  \<open>position\<close>: \<open>position.parent\<close> is the path without its last name, and the parent of the
  root is the root. The statement \<open>del position\<close> unbinds the local variable; it is not
  \<open>del parent[name]\<close>, so it removes nothing from the file and the file is not a result
  of the loop. The loop need not end: \<open>climb\<close> is \<open>None\<close> then.
\<close>

fun no_members :: "node option \<Rightarrow> error + bool" where
  "no_members (Some (Group kids attr)) = Inr (kids = [])"
| "no_members (Some (Dataset d attr)) = Inl AttributeError"
| "no_members None = Inl DanglingHandle"

partial_function (option) climb :: "node \<Rightarrow> string list \<Rightarrow> (error + string list) option" where
  "climb file position =
     (case no_members (node_at file position) of
        Inl e \<Rightarrow> Some (Inl e)
      | Inr childless \<Rightarrow>
          if childless then climb file (butlast position) else Some (Inr position))"

declare climb.simps [code]

definition delete :: "node \<Rightarrow> string list \<Rightarrow> string list \<Rightarrow> bool \<Rightarrow> (error + node) option" where
  "delete file grp keys recursive =
     (case node_at file grp of
        None \<Rightarrow> Some (Inl DanglingHandle)
      | Some g \<Rightarrow>
          (case walk g (butlast keys) of
             Inl e \<Rightarrow> Some (Inl e)
           | Inr position \<Rightarrow>
               if keys = [] then Some (Inl IndexError)
               else
                 (case contains position (last keys) of
                    Inl e \<Rightarrow> Some (Inl e)
                  | Inr present \<Rightarrow>
                      if \<not> present then Some (Inl (KeyError ''Key not found''))
                      else
                        (let file' = update_at file (grp @ butlast keys) (delitem (last keys))
                         in if recursive then
                              (case climb file' (grp @ butlast keys) of
                                 None \<Rightarrow> None
                               | Some (Inl e) \<Rightarrow> Some (Inl e)
                               | Some (Inr reached) \<Rightarrow> Some (Inr file'))
                            else Some (Inr file')))))"

section \<open>Notions used in the statements\<close>

text \<open>A text key collides with the reserved forms when it is the name kept for the
  empty string or starts with the prefix kept for integers.\<close>

definition collides :: "string \<Rightarrow> bool" where
  "collides s = (s = ''__emptyString__'' \<or> startswith s ''__int__'')"

text \<open>\<open>fromDict\<close> followed by \<open>toDict\<close> on the same group.\<close>

definition roundtrip :: "node \<Rightarrow> pyval \<Rightarrow> error + (pyval \<times> string list)" where
  "roundtrip grp v = (case fromDict grp v of Inl e \<Rightarrow> Inl e | Inr r \<Rightarrow> toDict r)"

text \<open>The names of the members of a node.\<close>

fun names :: "node \<Rightarrow> string set" where
  "names (Group kids a) = fst ` set kids"
| "names (Dataset d a) = {}"

fun is_group :: "node \<Rightarrow> bool" where
  "is_group (Group kids a) = True"
| "is_group (Dataset d a) = False"

text \<open>
  The limits within which \<open>fromDict\<close> and \<open>toDict\<close> are shown below to carry a value
  through the file unchanged. Keys are integers that \<open>str\<close> converts or texts that do
  not collide and are the empty text or the name of one member, and differ from one
  another as the keys of a Python dict do; a list or tuple has at most ten elements (its
  members are then named by one digit each; with an eleventh element the name \<open>10\<close>
  comes before the name \<open>2\<close>, and the elements come back in another order); an integer
  is in the range numpy stores as a 64-bit number, a float is not a NaN (which Python
  finds unequal to itself), a text holds no NUL.
\<close>

fun plain_key :: "key \<Rightarrow> bool" where
  "plain_key (KInt i) = (\<bar>i\<bar> < 10 ^ max_str_digits)"
| "plain_key (KStr s) = (\<not> collides s \<and> (s = [] \<or> member_name s))"
| "plain_key k = False"

definition is_nan :: "64 word \<Rightarrow> bool" where
  "is_nan x = (0x7FF0000000000000 < unat x mod 2 ^ 63)"

fun within_limits :: "pyval \<Rightarrow> bool" where
  "within_limits VNone = True"
| "within_limits (VBool b) = True"
| "within_limits (VInt i) = (- (2 ^ 63) \<le> i \<and> i < 2 ^ 64)"
| "within_limits (VFloat x) = (\<not> is_nan x)"
| "within_limits (VStr s) = (CHR 0x00 \<notin> set s)"
| "within_limits (VTensor sh es) = True"
| "within_limits (VDict kvs) =
     (distinct (map fst kvs) \<and> list_all plain_key (map fst kvs) \<and>
      list_all (\<lambda>p. within_limits (snd p)) kvs)"
| "within_limits (VList xs) = (length xs \<le> 10 \<and> list_all within_limits xs)"
| "within_limits (VTuple xs) = (length xs \<le> 10 \<and> list_all within_limits xs)"
| "within_limits (VRaw p) = False"
| "within_limits VOther = False"

text \<open>The name a key is stored under, and a value with the entries of every dict in it
  put in the ascending order of these names: the same dict for Python, whose comparison
  of dicts does not look at the order of the entries.\<close>

definition key_name :: "key \<Rightarrow> string" where
  "key_name k = (case encodeKey k of Inl e \<Rightarrow> [] | Inr n \<Rightarrow> n)"

fun by_stored_name :: "pyval \<Rightarrow> pyval" where
  "by_stored_name (VDict kvs) =
     VDict (sort_key (\<lambda>p. key_name (fst p)) (map (\<lambda>p. (fst p, by_stored_name (snd p))) kvs))"
| "by_stored_name (VList xs) = VList (map by_stored_name xs)"
| "by_stored_name (VTuple xs) = VTuple (map by_stored_name xs)"
| "by_stored_name v = v"

text \<open>The tree that \<open>fromDict\<close> makes of such a value in an empty group.\<close>

fun tree_of :: "pyval \<Rightarrow> node" where
  "tree_of (VDict kvs) =
     Group (sort_key fst (map (\<lambda>p. (key_name (fst p), tree_of (snd p))) kvs)) (Some ''dict'')"
| "tree_of (VList xs) =
     Group (zip (map str_nat [0..<length xs]) (map tree_of xs)) (Some ''list'')"
| "tree_of (VTuple xs) =
     Group (zip (map str_nat [0..<length xs]) (map tree_of xs)) (Some ''tuple'')"
| "tree_of v =
     (case pack v of Inl e \<Rightarrow> Dataset (Array [] []) None | Inr (d, h) \<Rightarrow> Dataset d (Some h))"

text \<open>
  Two values are the same when they are equal scalars (floats with the same bits) or
  tensors (of the same shape and elements), lists or tuples with the same elements in
  the same order, or dicts with the same keys and the same value for each key, wherever
  the entries stand (the comparison Python makes of two dicts: the same number of
  entries, and every key of the one found in the other with the same value).
\<close>

fun same_value :: "pyval \<Rightarrow> pyval \<Rightarrow> bool" where
  "same_value (VDict a) y =
     (case y of
        VDict b \<Rightarrow>
          length a = length b \<and>
          list_all (\<lambda>p. case map_of b (fst p) of
                           None \<Rightarrow> False
                         | Some w \<Rightarrow> same_value (snd p) w) a
      | _ \<Rightarrow> False)"
| "same_value (VList a) y = (case y of VList b \<Rightarrow> list_all2 same_value a b | _ \<Rightarrow> False)"
| "same_value (VTuple a) y = (case y of VTuple b \<Rightarrow> list_all2 same_value a b | _ \<Rightarrow> False)"
| "same_value x y = (x = y)"

text \<open>A value is written as its tree when \<open>insert_member\<close> puts that tree under any
  name that is free in any group.\<close>

definition writes_tree :: "pyval \<Rightarrow> bool" where
  "writes_tree v \<longleftrightarrow> (\<forall>kids a name. map_of kids name = None \<longrightarrow>
     insert_member (Group kids a) name v = Inr (Group (add_member name (tree_of v) kids) a))"

declare insert_member.simps [simp del] recursiveInsert.simps [simp del]

section \<open>Decimal text of integers\<close>

declare str_nat.simps [simp del]

lemma is_digit_digit_char: "d < 10 \<Longrightarrow> is_digit (digit_char d)"
  by (simp add: is_digit_def digit_char_def less_eq_char_def)

lemma digit_val_digit_char: "d < 10 \<Longrightarrow> digit_val (digit_char d) = d"
  by (simp add: digit_val_def digit_char_def)

lemma int_digits_snoc:
  "list_all is_digit s \<Longrightarrow> is_digit c \<Longrightarrow>
   int_digits (s @ [c]) acc =
     (case int_digits s acc of None \<Rightarrow> None | Some a \<Rightarrow> Some (a * 10 + digit_val c))"
  by (induction s arbitrary: acc) auto

lemma str_nat_digits: "list_all is_digit (str_nat n) \<and> str_nat n \<noteq> []"
proof (induction n rule: str_nat.induct)
  case (1 n)
  show ?case
  proof (cases "n < 10")
    case True
    then show ?thesis
      by (subst str_nat.simps, subst (2) str_nat.simps) (simp add: is_digit_digit_char)
  next
    case False
    with 1 show ?thesis
      by (subst str_nat.simps, subst (2) str_nat.simps) (simp add: is_digit_digit_char)
  qed
qed

lemma int_digits_str_nat: "int_digits (str_nat n) 0 = Some n"
proof (induction n rule: str_nat.induct)
  case (1 n)
  show ?case
  proof (cases "n < 10")
    case True
    then show ?thesis
      by (subst str_nat.simps) (simp add: is_digit_digit_char digit_val_digit_char)
  next
    case False
    with 1 have ih: "int_digits (str_nat (n div 10)) 0 = Some (n div 10)" by simp
    have d: "list_all is_digit (str_nat (n div 10))" using str_nat_digits by blast
    have "int_digits (str_nat (n div 10) @ [digit_char (n mod 10)]) 0
            = Some (n div 10 * 10 + n mod 10)"
      using int_digits_snoc [OF d, of "digit_char (n mod 10)" 0] ih
      by (simp add: is_digit_digit_char digit_val_digit_char)
    with False show ?thesis by (subst str_nat.simps) simp
  qed
qed

lemma int_literal_str_nat: "int_literal (str_nat n) = Some n"
proof -
  obtain c cs where s: "str_nat n = c # cs"
    using str_nat_digits [of n] by (cases "str_nat n") auto
  then have "is_digit c" using str_nat_digits [of n] by simp
  then have "int_literal (c # cs) = int_digits (c # cs) 0" by simp
  then show ?thesis using s int_digits_str_nat [of n] by simp
qed

text \<open>A number has at most \<open>k\<close> digits exactly when it is below \<open>10 ^ k\<close>.\<close>

lemma str_nat_length_le: "n < 10 ^ k \<Longrightarrow> 0 < k \<Longrightarrow> length (str_nat n) \<le> k"
proof (induction k arbitrary: n)
  case 0
  then show ?case by simp
next
  case (Suc k)
  show ?case
  proof (cases "n < 10")
    case True
    then show ?thesis by (subst str_nat.simps) simp
  next
    case False
    with Suc.prems have k: "0 < k" by (cases k) auto
    from Suc.prems have "n div 10 < 10 ^ k" by (simp add: less_mult_imp_div_less mult.commute)
    from Suc.IH [OF this k] False show ?thesis by (subst str_nat.simps) simp
  qed
qed

lemma str_nat_length_gt: "10 ^ k \<le> n \<Longrightarrow> k < length (str_nat n)"
proof (induction k arbitrary: n)
  case 0
  then show ?case using str_nat_digits [of n] by (cases "str_nat n") auto
next
  case (Suc k)
  from Suc.prems have "10 * 10 ^ k \<le> n" by simp
  moreover have "10 * (1::nat) \<le> 10 * 10 ^ k" by (rule mult_le_mono2) simp
  ultimately have n: "\<not> n < 10" by linarith
  from Suc.prems have "10 ^ k \<le> n div 10"
    by (simp add: less_eq_div_iff_mult_less_eq mult.commute)
  from Suc.IH [OF this] n show ?case by (subst str_nat.simps) simp
qed

lemma py_str_within_limit: "\<bar>i\<bar> < 10 ^ max_str_digits \<Longrightarrow> py_str i = Inr (str_int i)"
proof -
  assume "\<bar>i\<bar> < 10 ^ max_str_digits"
  then have "nat \<bar>i\<bar> < 10 ^ max_str_digits"
    by (metis nat_less_iff abs_ge_zero of_nat_numeral of_nat_power)
  then have "length (str_nat (nat \<bar>i\<bar>)) \<le> max_str_digits"
    by (rule str_nat_length_le) (simp add: max_str_digits_def)
  then show ?thesis by (simp add: py_str_def)
qed

lemma py_str_beyond_limit: "10 ^ max_str_digits \<le> \<bar>i\<bar> \<Longrightarrow> py_str i = Inl DigitLimit"
proof -
  assume "10 ^ max_str_digits \<le> \<bar>i\<bar>"
  then have "10 ^ max_str_digits \<le> nat \<bar>i\<bar>"
    by (metis le_nat_iff abs_ge_zero of_nat_numeral of_nat_power)
  then have "max_str_digits < length (str_nat (nat \<bar>i\<bar>))" by (rule str_nat_length_gt)
  then show ?thesis by (simp add: py_str_def)
qed

lemma digit_is_ascii: "is_digit c \<Longrightarrow> is_ascii c"
  by (auto simp: is_digit_def is_ascii_def less_eq_char_def)

lemma digit_not_space: "is_digit c \<Longrightarrow> \<not> is_space c"
  by (auto simp: is_digit_def is_space_def less_eq_char_def Let_def)

lemma digit_not_sign: "is_digit c \<Longrightarrow> c \<noteq> CHR ''-'' \<and> c \<noteq> CHR ''+''"
  by (auto simp: is_digit_def less_eq_char_def)

lemma strip_id:
  assumes "list_all (\<lambda>c. \<not> is_space c) s"
  shows "strip s = s"
proof -
  have 1: "dropWhile is_space s = s" using assms by (cases s) auto
  have "list_all (\<lambda>c. \<not> is_space c) (rev s)" using assms by (simp add: list_all_iff)
  then have 2: "dropWhile is_space (rev s) = rev s" by (cases "rev s") auto
  show ?thesis by (simp add: strip_def 1 2)
qed

lemma str_nat_no_space: "list_all (\<lambda>c. \<not> is_space c) (str_nat n)"
  using str_nat_digits [of n] by (auto simp: list_all_iff digit_not_space)

lemma str_nat_ascii: "list_all is_ascii (str_nat n)"
  using str_nat_digits [of n] by (auto simp: list_all_iff digit_is_ascii)

lemma int_body_str_nat:
  "length (str_nat n) \<le> max_str_digits \<Longrightarrow> int_body (str_nat n) = Inr n"
proof -
  assume l: "length (str_nat n) \<le> max_str_digits"
  have "filter is_digit (str_nat n) = str_nat n"
    using str_nat_digits [of n] by (simp add: list_all_iff)
  with l show ?thesis by (simp add: int_body_def int_literal_str_nat)
qed

lemma py_int_str_int:
  assumes "\<bar>i\<bar> < 10 ^ max_str_digits"
  shows "py_int (str_int i) = Inr i"
proof -
  from assms have "nat \<bar>i\<bar> < 10 ^ max_str_digits"
    by (metis nat_less_iff abs_ge_zero of_nat_numeral of_nat_power)
  then have len: "length (str_nat (nat \<bar>i\<bar>)) \<le> max_str_digits"
    by (rule str_nat_length_le) (simp add: max_str_digits_def)
  show ?thesis
  proof (cases "i < 0")
    case True
    then have a: "nat \<bar>i\<bar> = nat (- i)" by simp
    have "\<not> is_space CHR ''-''" by (simp add: is_space_def)
    then have s: "strip (CHR ''-'' # str_nat (nat (- i))) = CHR ''-'' # str_nat (nat (- i))"
      using str_nat_no_space [of "nat (- i)"] by (intro strip_id) simp
    have "is_ascii CHR ''-''" by (simp add: is_ascii_def)
    then have asc: "list_all is_ascii (CHR ''-'' # str_nat (nat (- i)))"
      using str_nat_ascii by simp
    from len a have "int_body (str_nat (nat (- i))) = Inr (nat (- i))"
      by (intro int_body_str_nat) simp
    with True s asc show ?thesis by (simp add: py_int_def str_int_def)
  next
    case False
    then have a: "nat \<bar>i\<bar> = nat i" by simp
    obtain c cs where s: "str_nat (nat i) = c # cs"
      using str_nat_digits [of "nat i"] by (cases "str_nat (nat i)") auto
    have "is_digit c" using str_nat_digits [of "nat i"] s by simp
    then have c: "c \<noteq> CHR ''-''" "c \<noteq> CHR ''+''" using digit_not_sign by blast+
    have st: "strip (str_nat (nat i)) = str_nat (nat i)"
      using str_nat_no_space by (rule strip_id)
    from len a have b: "int_body (str_nat (nat i)) = Inr (nat i)"
      by (intro int_body_str_nat) simp
    from False s c st b str_nat_ascii [of "nat i"] show ?thesis
      by (simp add: py_int_def str_int_def)
  qed
qed

lemma decodeKey_int:
  "\<bar>i\<bar> < 10 ^ max_str_digits \<Longrightarrow> decodeKey (''__int__'' @ str_int i) = Inr (KInt i)"
  by (simp add: decodeKey_def startswith_def py_int_str_int)

lemma decodeKey_plain:
  "\<not> collides s \<Longrightarrow> decodeKey (if s = [] then ''__emptyString__'' else s) = Inr (KStr s)"
  by (simp add: decodeKey_def collides_def startswith_def)

section \<open>The key names\<close>

text \<open>
  C2, as the code has it. An integer key whose decimal text has at most 4300 digits (the
  most that \<open>str\<close> and \<open>int\<close> convert unless the interpreter is configured otherwise) is
  stored under \<open>__int__\<close> followed by that text, and reading the name gives the integer
  back. A text key that does not collide with the reserved forms is stored under
  \<open>__emptyString__\<close> when it is empty and under itself otherwise, and reading that name
  gives the key back. A text key that collides (it is \<open>__emptyString__\<close> or starts with
  \<open>__int__\<close>) is refused with a \<open>ValueError\<close>.
\<close>

theorem key_names_invert:
  "(\<bar>i\<bar> < 10 ^ max_str_digits \<longrightarrow>
      encodeKey (KInt i) = Inr (''__int__'' @ str_int i) \<and>
      decodeKey (''__int__'' @ str_int i) = Inr (KInt i)) \<and>
   (\<not> collides s \<longrightarrow>
      encodeKey (KStr s) = Inr (if s = [] then ''__emptyString__'' else s) \<and>
      decodeKey (if s = [] then ''__emptyString__'' else s) = Inr (KStr s)) \<and>
   (collides s \<longrightarrow> (\<exists>msg. encodeKey (KStr s) = Inl (ValueError msg)))"
proof (intro conjI impI)
  assume b: "\<bar>i\<bar> < 10 ^ max_str_digits"
  then show "encodeKey (KInt i) = Inr (''__int__'' @ str_int i)"
    by (simp add: py_str_within_limit)
  from b show "decodeKey (''__int__'' @ str_int i) = Inr (KInt i)" by (rule decodeKey_int)
next
  assume "\<not> collides s"
  then show "encodeKey (KStr s) = Inr (if s = [] then ''__emptyString__'' else s)"
    by (simp add: collides_def)
next
  assume "\<not> collides s"
  then show "decodeKey (if s = [] then ''__emptyString__'' else s) = Inr (KStr s)"
    by (rule decodeKey_plain)
next
  assume "collides s"
  then show "\<exists>msg. encodeKey (KStr s) = Inl (ValueError msg)"
    by (auto simp: collides_def)
qed

theorem key_names_invert_witness:
  "encodeKey (KInt (- 42)) = Inr ''__int__-42'' \<and>
   decodeKey ''__int__-42'' = Inr (KInt (- 42)) \<and>
   encodeKey (KStr ''weight'') = Inr ''weight'' \<and>
   decodeKey ''weight'' = Inr (KStr ''weight'') \<and>
   encodeKey (KStr []) = Inr ''__emptyString__'' \<and>
   decodeKey ''__emptyString__'' = Inr (KStr []) \<and>
   (\<exists>msg. encodeKey (KStr ''__int__7'') = Inl (ValueError msg))"
proof -
  have "(10::int) ^ 2 \<le> 10 ^ max_str_digits"
    by (rule power_increasing) (simp_all add: max_str_digits_def)
  then have i: "\<bar>- 42 :: int\<bar> < 10 ^ max_str_digits" by simp
  have t: "str_int (- 42) = ''-42''" by code_simp
  have a: "\<not> collides ''weight''" by (simp add: collides_def startswith_def)
  have b: "\<not> collides []" by (simp add: collides_def startswith_def)
  have c: "collides ''__int__7''" by (simp add: collides_def startswith_def)
  show ?thesis
    using key_names_invert [of "- 42" "''weight''"] key_names_invert [of 0 "[]"]
      key_names_invert [of 0 "''__int__7''"] i a b c
    by (simp add: t)
qed

text \<open>
  C2, as the claim has it, fails for an integer key of more than 4300 digits: \<open>str(key)\<close>
  on line 133 raises for it, so the key has no name.
\<close>

theorem integer_key_beyond_digit_limit:
  "encodeKey (KInt (10 ^ max_str_digits)) = Inl DigitLimit \<and> max_str_digits = 4300"
proof
  have "(10::int) ^ max_str_digits \<le> \<bar>10 ^ max_str_digits\<bar>" by simp
  then have "py_str (10 ^ max_str_digits) = Inl DigitLimit" by (rule py_str_beyond_limit)
  then show "encodeKey (KInt (10 ^ max_str_digits)) = Inl DigitLimit" by simp
  show "max_str_digits = 4300" by (simp add: max_str_digits_def)
qed

section \<open>Members of a group\<close>

lemma update_add_member:
  "map_of kids name = None \<Longrightarrow>
   AList.update name x (add_member name y kids) = add_member name x kids"
  unfolding add_member_def
  by (induction kids) (auto split: if_splits)

lemma map_of_add_member_same: "map_of (add_member name x kids) name = Some x"
  unfolding add_member_def by (induction kids) auto

lemma names_add_member: "fst ` set (add_member name x kids) = insert name (fst ` set kids)"
  unfolding add_member_def by (simp add: set_insort_key)

lemma names_update: "fst ` set (AList.update name x kids) = insert name (fst ` set kids)"
  by (simp add: AList.dom_update)

lemma create_dataset_shape:
  "create_dataset p name d = Inr p1 \<Longrightarrow>
   \<exists>kids a. p = Group kids a \<and> p1 = Group (add_member name (Dataset d None) kids) a"
  by (cases p) (auto split: if_splits)

lemma create_group_shape:
  "create_group p name = Inr p1 \<Longrightarrow>
   \<exists>kids a. p = Group kids a \<and> p1 = Group (add_member name (Group [] None) kids) a"
  by (cases p) (auto split: if_splits)

lemma getitem_shape:
  "getitem p name = Inr c \<Longrightarrow> \<exists>kids a. p = Group kids a \<and> map_of kids name = Some c"
  by (cases p) (auto split: option.splits)

lemma set_member_type_shape:
  "set_member_type p name h = Inr p' \<Longrightarrow>
   \<exists>kids a c. p = Group kids a \<and> map_of kids name = Some c \<and>
     p' = Group (AList.update name (set_type c h) kids) a"
  by (cases p) (auto simp: set_member_type_def split: option.splits)

lemma contains_True_shape:
  assumes "contains p name = Inr True"
  shows "\<exists>kids a c. p = Group kids a \<and> map_of kids name = Some c"
  using assms by (auto elim!: contains.elims split: if_splits)

text \<open>A value that is not a container becomes a dataset with its type hint, at the
  place of its name.\<close>

lemma insert_leaf:
  assumes "container_type v = None" "pack v = Inr (d, h)" "has_hdf5_type d" "writable d"
    "map_of kids name = None"
  shows "insert_member (Group kids a) name v
           = Inr (Group (add_member name (Dataset d (Some h)) kids) a)"
  using assms
  by (simp add: insert_member.simps set_member_type_def map_of_add_member_same update_add_member)

text \<open>Whatever is inserted, the node written to is a group afterwards, keeps its type
  hint, and has the new name among its members.\<close>

lemma insert_member_shape:
  assumes "insert_member p name v = Inr p'"
  shows "is_group p' \<and> type_attr p' = type_attr p \<and> names p' = insert name (names p)"
proof (cases "container_type v")
  case None
  with assms obtain d h p1 where "create_dataset p name d = Inr p1"
    "set_member_type p1 name h = Inr p'"
    by (auto simp: insert_member.simps split: sum.splits prod.splits)
  from create_dataset_shape [OF this(1)] set_member_type_shape [OF this(2)]
  show ?thesis by (auto simp: names_add_member names_update)
next
  case (Some hint)
  let ?made = "\<lambda>present. if present then Inr p
             else (case create_group p name of Inl e \<Rightarrow> Inl e
                   | Inr q \<Rightarrow> set_member_type q name hint)"
  from assms Some obtain present where c: "contains p name = Inr present"
    by (cases "contains p name") (auto simp: insert_member.simps)
  from assms Some c obtain p1 where p1: "?made present = Inr p1"
    by (cases "?made present") (auto simp: insert_member.simps)
  from assms Some c p1 obtain ch where g: "getitem p1 name = Inr ch"
    by (cases "getitem p1 name") (auto simp: insert_member.simps)
  from assms Some c p1 g obtain c' where p': "p' = put_member p1 name c'"
    by (cases "recursiveInsert ch v") (auto simp: insert_member.simps)
  show ?thesis
  proof (cases present)
    case True
    with p1 have "p1 = p" by simp
    with getitem_shape [OF g] p' show ?thesis
      by (auto simp: names_update dest: map_of_SomeD)
  next
    case False
    with p1 obtain q where q: "create_group p name = Inr q" "set_member_type q name hint = Inr p1"
      by (auto split: sum.splits)
    from create_group_shape [OF q(1)] set_member_type_shape [OF q(2)] p'
    show ?thesis by (auto simp: names_add_member names_update)
  qed
qed

lemma insert_items_shape:
  "insert_items p kvs = Inr p' \<Longrightarrow>
   type_attr p' = type_attr p \<and> (kvs \<noteq> [] \<longrightarrow> is_group p') \<and>
   (\<forall>k v n. (k, v) \<in> set kvs \<longrightarrow> encodeKey k = Inr n \<longrightarrow> n \<in> names p') \<and>
   names p \<subseteq> names p'"
proof (induction kvs arbitrary: p)
  case Nil
  then show ?case by simp
next
  case (Cons kv kvs)
  obtain k v where kv: "kv = (k, v)" by (cases kv)
  from Cons.prems kv obtain n p1 where
    n: "encodeKey k = Inr n" and m: "insert_member p n v = Inr p1"
    and r: "insert_items p1 kvs = Inr p'"
    by (auto split: sum.splits)
  note s = insert_member_shape [OF m]
  note ih = Cons.IH [OF r]
  have g: "is_group p'"
  proof (cases kvs)
    case Nil
    with r s show ?thesis by simp
  next
    case (Cons a list)
    with ih show ?thesis by simp
  qed
  show ?case using s ih g n kv by auto
qed

section \<open>Booleans\<close>

text \<open>
  C8. A boolean is packed by the \<open>bool\<close> branch of \<open>pack\<close>, which stands before the
  \<open>int\<close> branch: its data is a boolean scalar and its type hint is \<open>bool\<close>. That is
  what \<open>insert_member\<close>, the body of both loops, writes for a boolean that is a value of a
  dict or an element of a list or tuple, and \<open>unpack\<close> and \<open>fetch_member\<close> read the same
  boolean back from it, printing nothing.
\<close>

theorem bool_kept_as_bool:
  "pack (VBool b) = Inr (Array [] [SBool b], ''bool'') \<and>
   (map_of kids name = None \<longrightarrow>
      insert_member (Group kids a) name (VBool b) =
        Inr (Group (add_member name (Dataset (Array [] [SBool b]) (Some ''bool'')) kids) a)) \<and>
   unpack (Array [] [SBool b]) (Some ''bool'') = Inr (VBool b, []) \<and>
   fetch_member (Dataset (Array [] [SBool b]) (Some ''bool'')) = Inr (VBool b, [])"
proof (intro conjI impI)
  show p: "pack (VBool b) = Inr (Array [] [SBool b], ''bool'')" by (simp add: pack_def)
  show u: "unpack (Array [] [SBool b]) (Some ''bool'') = Inr (VBool b, [])"
    by (simp add: unpack_def)
  then show "fetch_member (Dataset (Array [] [SBool b]) (Some ''bool'')) = Inr (VBool b, [])"
    by simp
  assume "map_of kids name = None"
  then show "insert_member (Group kids a) name (VBool b) =
        Inr (Group (add_member name (Dataset (Array [] [SBool b]) (Some ''bool'')) kids) a)"
    using p by (intro insert_leaf) simp_all
qed

theorem bool_kept_as_bool_witness:
  "roundtrip (Group [] None) (VList [VBool True, VInt 1, VBool False])
     = Inr (VList [VBool True, VInt 1, VBool False], []) \<and>
   insert_member (Group [] (Some ''dict'')) ''flag'' (VBool True)
     = Inr (Group [(''flag'', Dataset (Array [] [SBool True]) (Some ''bool''))] (Some ''dict''))"
proof -
  have e: "roundtrip (Group [] None) (VList [VBool True, VInt 1, VBool False])
     = Inr (VList [VBool True, VInt 1, VBool False], [])"
    by code_simp
  show ?thesis
    using bool_kept_as_bool [of True "[]" "''flag''" "Some ''dict''"] e
    by (simp add: add_member_def)
qed

section \<open>Boolean keys\<close>

lemma fetch_items_bad_name:
  "n \<in> fst ` set kids \<Longrightarrow> decodeKey n = Inl e \<Longrightarrow> \<exists>e'. fetch_items kids target out = Inl e'"
proof (induction kids arbitrary: target out)
  case Nil
  then show ?case by simp
next
  case (Cons m kids)
  obtain i c where m: "m = (i, c)" by (cases m)
  show ?case
  proof (cases "decodeKey i")
    case (Inl a)
    then show ?thesis using m by simp
  next
    case (Inr iOut)
    then have "i \<noteq> n" using Cons.prems by auto
    then have "n \<in> fst ` set kids" using Cons.prems m by auto
    then show ?thesis using Cons.IH Cons.prems(2) m Inr
      by (auto split: sum.splits)
  qed
qed

lemma decodeKey_bool: "decodeKey (''__int__'' @ str_bool b) = Inl IntLiteralError"
  by (cases b) (simp_all add: decodeKey_def startswith_def str_bool_def py_int_def strip_def
      int_body_def is_ascii_def is_space_def is_digit_def less_eq_char_def)

text \<open>
  C9. A boolean key passes the test \<open>isinstance(key, int)\<close> and is stored under
  \<open>__int__True\<close> or \<open>__int__False\<close>. Reading such a name fails in \<open>int\<close>. So whenever
  \<open>fromDict\<close> succeeds on a dict that has a boolean key, \<open>toDict\<close> on the result raises.
\<close>

theorem bool_key_cannot_be_read:
  "encodeKey (KBool b) = Inr (''__int__'' @ str_bool b) \<and>
   str_bool b = (if b then ''True'' else ''False'') \<and>
   decodeKey (''__int__'' @ str_bool b) = Inl IntLiteralError \<and>
   (fromDict grp (VDict kvs) = Inr r \<longrightarrow> (KBool b, v) \<in> set kvs \<longrightarrow>
      (\<exists>e. toDict r = Inl e))"
proof (intro conjI impI)
  show "encodeKey (KBool b) = Inr (''__int__'' @ str_bool b)" by simp
  show "str_bool b = (if b then ''True'' else ''False'')" by (simp add: str_bool_def)
  show d: "decodeKey (''__int__'' @ str_bool b) = Inl IntLiteralError" by (rule decodeKey_bool)
  assume enc: "fromDict grp (VDict kvs) = Inr r" and mem: "(KBool b, v) \<in> set kvs"
  from enc have "insert_items (set_type grp ''dict'') kvs = Inr r"
    by (simp add: fromDict_def recursiveInsert.simps)
  from insert_items_shape [OF this] mem
  have t: "type_attr r = Some ''dict''" and g: "is_group r"
    and n: "''__int__'' @ str_bool b \<in> names r"
    by (cases grp; auto)+
  from g obtain kids a where r: "r = Group kids a" by (cases r) auto
  with t n have "a = Some ''dict''" "''__int__'' @ str_bool b \<in> fst ` set kids" by auto
  with fetch_items_bad_name [OF this(2) d, of "[]" "[]"] r
  show "\<exists>e. toDict r = Inl e"
    by (auto simp: toDict_def)
qed

theorem bool_key_cannot_be_read_witness:
  "fromDict (Group [] None) (VDict [(KStr ''n'', VInt 3), (KBool True, VStr ''yes'')])
     = Inr (Group [(''__int__True'', Dataset (Bytes ''yes'') (Some ''str'')),
                   (''n'', Dataset (Array [] [SInt 3]) (Some ''int''))] (Some ''dict'')) \<and>
   (\<exists>e. toDict (Group [(''__int__True'', Dataset (Bytes ''yes'') (Some ''str'')),
                   (''n'', Dataset (Array [] [SInt 3]) (Some ''int''))] (Some ''dict'')) = Inl e)"
proof -
  have e: "fromDict (Group [] None) (VDict [(KStr ''n'', VInt 3), (KBool True, VStr ''yes'')])
     = Inr (Group [(''__int__True'', Dataset (Bytes ''yes'') (Some ''str'')),
                   (''n'', Dataset (Array [] [SInt 3]) (Some ''int''))] (Some ''dict''))"
    by code_simp
  have m: "(KBool True, VStr ''yes'') \<in> set [(KStr ''n'', VInt 3), (KBool True, VStr ''yes'')]"
    by simp
  from bool_key_cannot_be_read [of True "Group [] None"
      "[(KStr ''n'', VInt 3), (KBool True, VStr ''yes'')]" _ "VStr ''yes''"] e m
  show ?thesis by blast
qed

section \<open>Groups read by \<open>toDict\<close>\<close>

lemma fetch_elems_results:
  "fetch_elems kids target out = Inr (vs, printed) \<Longrightarrow>
   \<exists>rs. map (\<lambda>m. fetch_member (snd m)) kids = map Inr rs \<and> vs = target @ map fst rs"
proof (induction kids arbitrary: target out)
  case Nil
  then show ?case by simp
next
  case (Cons m kids)
  obtain i child where m: "m = (i, child)" by (cases m)
  from Cons.prems m obtain v p where
    c: "fetch_member child = Inr (v, p)" and
    r: "fetch_elems kids (target @ [v]) (out @ p) = Inr (vs, printed)"
    by (auto split: sum.splits)
  from Cons.IH [OF r] obtain rs where
    "map (\<lambda>m. fetch_member (snd m)) kids = map Inr rs" "vs = (target @ [v]) @ map fst rs"
    by blast
  with c m have
    "map (\<lambda>m. fetch_member (snd m)) (m # kids) = map Inr ((v, p) # rs) \<and>
     vs = target @ map fst ((v, p) # rs)"
    by simp
  then show ?case by blast
qed

lemma fetch_elems_error:
  "fetch_elems kids target out = Inl e \<Longrightarrow> \<exists>m\<in>set kids. fetch_member (snd m) = Inl e"
proof (induction kids arbitrary: target out)
  case Nil
  then show ?case by simp
next
  case (Cons m kids)
  obtain i child where m: "m = (i, child)" by (cases m)
  show ?case
  proof (cases "fetch_member child")
    case (Inl e')
    with Cons.prems m show ?thesis by simp
  next
    case (Inr r)
    with Cons.prems m obtain v p where
      "fetch_elems kids (target @ [v]) (out @ p) = Inl e"
      by (cases r) auto
    from Cons.IH [OF this] show ?thesis by simp
  qed
qed

text \<open>
  C3, as the code has it. A group whose type hint is \<open>list\<close> or \<open>tuple\<close> is read by
  decoding each of its members, a member that is a group by \<open>recursiveFetch\<close> and any
  other by \<open>unpack\<close>. An exception can only be the exception of decoding a member;
  otherwise the result is a tuple or a list, according to the hint, of the values of the
  members, each member counted once. The names of the members are neither parsed nor
  checked, so no name makes the reading fail.
\<close>

theorem sequence_group_decodes_its_members:
  assumes "t = ''list'' \<or> t = ''tuple''"
  shows "case recursiveFetch (Group kids (Some t)) of
      Inl e \<Rightarrow> \<exists>m\<in>set kids. fetch_member (snd m) = Inl e
    | Inr (v, out) \<Rightarrow>
        \<exists>rs. mset (map Inr rs) = mset (map (\<lambda>m. fetch_member (snd m)) kids) \<and>
          v = (if t = ''tuple'' then VTuple (map fst rs) else VList (map fst rs))"
proof (cases "fetch_elems kids [] []")
  case (Inl e)
  from fetch_elems_error [OF this] Inl assms show ?thesis by auto
next
  case (Inr r)
  obtain vs printed where r: "r = (vs, printed)" by (cases r)
  from fetch_elems_results [of kids "[]" "[]" vs printed] Inr r obtain rs where
    "map (\<lambda>m. fetch_member (snd m)) kids = map Inr rs" "vs = map fst rs"
    by auto
  then have "mset (map Inr rs) = mset (map (\<lambda>m. fetch_member (snd m)) kids) \<and>
      (if t = ''tuple'' then VTuple vs else VList vs) =
      (if t = ''tuple'' then VTuple (map fst rs) else VList (map fst rs))"
    by simp
  then have "\<exists>rs. mset (map Inr rs) = mset (map (\<lambda>m. fetch_member (snd m)) kids) \<and>
      (if t = ''tuple'' then VTuple vs else VList vs) =
      (if t = ''tuple'' then VTuple (map fst rs) else VList (map fst rs))"
    by blast
  with Inr r assms show ?thesis by auto
qed

theorem sequence_group_decodes_its_members_witness:
  "recursiveFetch (Group [(''7'', Group [] (Some ''dict'')),
                          (''x'', Dataset (Bytes ''a'') (Some ''str''))] (Some ''tuple''))
     = Inr (VTuple [VDict [], VStr ''a''], []) \<and>
   (\<exists>rs. mset (map Inr rs) =
           mset (map (\<lambda>m. fetch_member (snd m))
             [(''7'', Group [] (Some ''dict'')),
              (''x'', Dataset (Bytes ''a'') (Some ''str''))]) \<and>
         VTuple [VDict [], VStr ''a''] = VTuple (map fst rs))"
proof -
  have e: "recursiveFetch (Group [(''7'', Group [] (Some ''dict'')),
              (''x'', Dataset (Bytes ''a'') (Some ''str''))] (Some ''tuple''))
            = Inr (VTuple [VDict [], VStr ''a''], [])"
    by (simp add: unpack_def)
  from sequence_group_decodes_its_members [of "''tuple''"
     "[(''7'', Group [] (Some ''dict'')), (''x'', Dataset (Bytes ''a'') (Some ''str''))]"]
  show ?thesis unfolding e by simp
qed

text \<open>
  C3, as the claim has it, fails. A group with the hint \<open>list\<close> and a member named
  \<open>abc\<close> (what \<open>fromDict\<close> leaves behind when a dict and then an empty list are written
  to the same group) is read as a list, without any exception.
\<close>

theorem sequence_names_are_not_parsed:
  "toDict (Group [(''abc'', Dataset (Array [] [SInt 7]) (Some ''int''))] (Some ''list''))
     = Inr (VList [VInt 7], [])"
  by code_simp



section \<open>\<open>fetch\<close> and \<open>delete\<close>\<close>

lemma walk_append:
  "walk g (xs @ ys) = (case walk g xs of Inl e \<Rightarrow> Inl e | Inr n \<Rightarrow> walk n ys)"
  by (induction xs arbitrary: g) (auto split: sum.splits)

lemma node_at_update_at:
  "node_at n p = Some g \<Longrightarrow> node_at (update_at n (p @ q) f) p = Some (update_at g q f)"
  by (induction n p rule: node_at.induct) (auto split: option.splits simp: update_conv')

lemma walk_update_at:
  "walk g q = Inr pos \<Longrightarrow> walk (update_at g q f) q = Inr (f pos)"
proof (induction q arbitrary: g)
  case Nil
  then show ?case by simp
next
  case (Cons i q)
  from Cons.prems obtain c where c: "contains g i = Inr True" "getitem g i = Inr c"
    "walk c q = Inr pos"
    by (auto split: sum.splits if_splits)
  from contains_True_shape [OF c(1)] c(2) obtain kids a
    where g: "g = Group kids a" "map_of kids i = Some c"
    by auto
  show ?case using g c(3) Cons.IH [OF c(3)] by (simp add: update_conv')
qed

lemma contains_delitem:
  "contains pos k = Inr True \<Longrightarrow> contains (delitem k pos) k = Inr False"
  by (auto dest!: contains_True_shape simp: delete_conv')

text \<open>
  What \<open>fetch\<close> does for keys that are names of single members. It raises \<open>KeyError\<close>
  at the first key that is not the name of a member of the group it has reached; after
  \<open>fromDict\<close> of the dict \<open>{"a": 5}\<close> into an empty group, \<open>fetch\<close> of \<open>["a"]\<close> gives the
  data \<open>pack\<close> makes of 5; and whenever \<open>delete\<close> of a path returns, \<open>fetch\<close> of the same
  path raises \<open>KeyError\<close>.
\<close>

lemma fetch_missing_member:
  assumes "list_all member_name (pre @ [k])"
    and "node_at file grp = Some g" "walk g pre = Inr (Group kids a)" "map_of kids k = None"
  shows "fetch file grp (pre @ k # rest) = Inl (KeyError ''Key not found'')"
  using assms by (simp add: fetch_def walk_append)

lemma fetch_after_fromDict:
  "fromDict (Group [] None) (VDict [(KStr ''a'', VInt 5)])
     = Inr (Group [(''a'', Dataset (Array [] [SInt 5]) (Some ''int''))] (Some ''dict'')) \<and>
   pack (VInt 5) = Inr (Array [] [SInt 5], ''int'') \<and>
   fetch (Group [(''a'', Dataset (Array [] [SInt 5]) (Some ''int''))] (Some ''dict''))
     [] [''a''] = Inr (Array [] [SInt 5])"
  by code_simp

lemma delete_then_fetch:
  assumes "list_all member_name keys"
    and "delete file grp keys recursive = Some (Inr file')"
  shows "fetch file' grp keys = Inl (KeyError ''Key not found'')"
proof -
  note d = assms(2)
  from d obtain g where g: "node_at file grp = Some g"
    by (cases "node_at file grp") (auto simp: delete_def)
  from d g obtain pos where w: "walk g (butlast keys) = Inr pos"
    by (cases "walk g (butlast keys)") (auto simp: delete_def)
  from d g w have ne: "keys \<noteq> []" by (auto simp: delete_def)
  from d g w ne have c: "contains pos (last keys) = Inr True"
    by (cases "contains pos (last keys)") (auto simp: delete_def split: if_splits)
  from d g w ne c have f: "file' = update_at file (grp @ butlast keys) (delitem (last keys))"
    by (auto simp: delete_def Let_def split: if_splits option.splits sum.splits)
  have 1: "node_at file' grp = Some (update_at g (butlast keys) (delitem (last keys)))"
    unfolding f using g by (rule node_at_update_at)
  have 2: "walk (update_at g (butlast keys) (delitem (last keys))) (butlast keys)
            = Inr (delitem (last keys) pos)"
    using w by (rule walk_update_at)
  have k: "keys = butlast keys @ [last keys]" using ne by simp
  have "walk (update_at g (butlast keys) (delitem (last keys))) keys
          = Inl (KeyError ''Key not found'')"
    by (subst (2) k, subst walk_append) (simp add: 2 contains_delitem [OF c])
  with 1 show ?thesis by (simp add: fetch_def)
qed

text \<open>
  C7. The claim has \<open>fetch\<close> raise \<open>KeyError\<close> at the first key that is missing, and
  lines 28 and 29 are there to raise it. For a path that goes on below a scalar dataset
  they do not: after \<open>fromDict\<close> of the dict \<open>{"a": 5}\<close> into an empty group, \<open>fetch\<close> of
  \<open>["a", "b"]\<close> raises \<open>TypeError\<close>, out of the membership test \<open>i not in position\<close>
  itself, which a scalar dataset refuses.
\<close>

theorem fetch_below_a_dataset:
  "fromDict (Group [] None) (VDict [(KStr ''a'', VInt 5)])
     = Inr (Group [(''a'', Dataset (Array [] [SInt 5]) (Some ''int''))] (Some ''dict'')) \<and>
   fetch (Group [(''a'', Dataset (Array [] [SInt 5]) (Some ''int''))] (Some ''dict''))
     [] [''a'', ''b''] = Inl TypeError"
  by code_simp

section \<open>Writing a value and reading it back\<close>

subsection \<open>Sorted insertion\<close>

lemma insort_key_map:
  "insort_key f (g x) (map g xs) = map g (insort_key (\<lambda>y. f (g y)) x xs)"
  by (induction xs) auto

lemma sort_key_map: "sort_key f (map g xs) = map g (sort_key (\<lambda>y. f (g y)) xs)"
  by (induction xs) (auto simp: insort_key_map)

lemma foldl_insort_out:
  "f y \<notin> f ` set xs \<Longrightarrow>
   foldl (\<lambda>acc x. insort_key f x acc) (insort_key f y acc0) xs
     = insort_key f y (foldl (\<lambda>acc x. insort_key f x acc) acc0 xs)"
proof (induction xs arbitrary: acc0)
  case Nil
  then show ?case by simp
next
  case (Cons x xs)
  then have "f x \<noteq> f y" by auto
  then have "insort_key f x (insort_key f y acc0) = insort_key f y (insort_key f x acc0)"
    by (simp add: insort_key_left_comm)
  with Cons show ?case by simp
qed

lemma foldl_insort_sort:
  "distinct (map f xs) \<Longrightarrow> foldl (\<lambda>acc x. insort_key f x acc) [] xs = sort_key f xs"
proof (induction xs)
  case Nil
  then show ?case by simp
next
  case (Cons x xs)
  then have "f x \<notin> f ` set xs" by auto
  from foldl_insort_out [OF this, of "[]"] Cons show ?case by simp
qed

lemma insort_key_snoc:
  "\<forall>p \<in> set xs. f p < f x \<Longrightarrow> insort_key f x xs = xs @ [x]"
  by (induction xs) auto

lemma str_nat_small: "n < 10 \<Longrightarrow> str_nat n = [digit_char n]"
  by (subst str_nat.simps) simp

lemma digit_char_less: "i < 10 \<Longrightarrow> j < 10 \<Longrightarrow> digit_char i < digit_char j \<longleftrightarrow> i < j"
  by (simp add: digit_char_def less_char_def)

lemma py_str_index: "idx < 10 \<Longrightarrow> py_str (int idx) = Inr (str_nat idx)"
  by (simp add: py_str_def str_int_def str_nat_small max_str_digits_def)

lemma str_nat_less: "i < 10 \<Longrightarrow> j < 10 \<Longrightarrow> str_nat i < str_nat j \<longleftrightarrow> i < j"
  by (simp add: str_nat_small digit_char_less)

subsection \<open>Keys and their names\<close>

lemma encodeKey_plain: "plain_key k \<Longrightarrow> encodeKey k = Inr (key_name k)"
  by (cases k) (auto simp: key_name_def collides_def py_str_within_limit)

lemma decodeKey_key_name:
  assumes "plain_key k"
  shows "decodeKey (key_name k) = Inr k"
proof (cases k)
  case (KInt i)
  with assms have b: "\<bar>i\<bar> < 10 ^ max_str_digits" by simp
  then have "key_name (KInt i) = ''__int__'' @ str_int i"
    by (simp add: key_name_def py_str_within_limit)
  with KInt decodeKey_int [OF b] show ?thesis by (simp only:)
next
  case (KStr s)
  with assms have c: "\<not> collides s" by simp
  then have "key_name (KStr s) = (if s = [] then ''__emptyString__'' else s)"
    by (simp add: key_name_def collides_def)
  with KStr decodeKey_plain [OF c] show ?thesis by (simp only:)
qed (use assms in simp_all)

lemma key_name_inj: "plain_key k \<Longrightarrow> plain_key k' \<Longrightarrow> key_name k = key_name k' \<Longrightarrow> k = k'"
  using decodeKey_key_name by (metis sum.inject(2))

lemma distinct_key_names:
  "distinct (map fst kvs) \<Longrightarrow> list_all plain_key (map fst kvs) \<Longrightarrow>
   distinct (map (\<lambda>p. key_name (fst p)) kvs)"
proof (induction kvs)
  case Nil
  then show ?case by simp
next
  case (Cons kv kvs)
  have "key_name (fst kv) \<notin> (\<lambda>p. key_name (fst p)) ` set kvs"
  proof
    assume "key_name (fst kv) \<in> (\<lambda>p. key_name (fst p)) ` set kvs"
    then obtain p where p: "p \<in> set kvs" "key_name (fst kv) = key_name (fst p)" by auto
    with Cons.prems have "plain_key (fst kv)" "plain_key (fst p)" by (auto simp: list_all_iff)
    with p have "fst kv = fst p" by (auto dest: key_name_inj)
    with p(1) Cons.prems(1) show False by auto
  qed
  with Cons show ?case by simp
qed

subsection \<open>One loop at a time\<close>

lemma pack_within_limits:
  assumes "within_limits v" "container_type v = None"
  shows "\<exists>d h. pack v = Inr (d, h) \<and> has_hdf5_type d \<and> writable d \<and>
           tree_of v = Dataset d (Some h) \<and> unpack d (Some h) = Inr (v, [])"
  using assms by (cases v) (auto simp: pack_def unpack_def np_array_int_def)

lemma insert_container:
  assumes "container_type v = Some h" "recursiveInsert (Group [] (Some h)) v = Inr (tree_of v)"
    "map_of kids name = None"
  shows "insert_member (Group kids a) name v = Inr (Group (add_member name (tree_of v) kids) a)"
  using assms
  by (simp add: insert_member.simps set_member_type_def map_of_add_member_same update_add_member)

lemma insert_items_fresh:
  assumes "\<forall>p \<in> set kvs. plain_key (fst p) \<and> writes_tree (snd p)"
    and "distinct (map (\<lambda>p. key_name (fst p)) kvs)"
    and "\<forall>p \<in> set kvs. key_name (fst p) \<notin> fst ` set kids"
  shows "insert_items (Group kids a) kvs =
     Inr (Group (foldl (\<lambda>K p. add_member (key_name (fst p)) (tree_of (snd p)) K) kids kvs) a)"
  using assms
proof (induction kvs arbitrary: kids)
  case Nil
  then show ?case by simp
next
  case (Cons kv kvs)
  obtain k v where kv: "kv = (k, v)" by (cases kv)
  from Cons.prems kv have k: "encodeKey k = Inr (key_name k)" and w: "writes_tree v"
    by (auto simp: encodeKey_plain)
  from Cons.prems(3) kv have "map_of kids (key_name k) = None"
    by (simp add: map_of_eq_None_iff)
  with w have m: "insert_member (Group kids a) (key_name k) v
      = Inr (Group (add_member (key_name k) (tree_of v) kids) a)"
    by (simp add: writes_tree_def)
  have fresh: "\<forall>p \<in> set kvs. key_name (fst p) \<notin> fst ` set (add_member (key_name k) (tree_of v) kids)"
    using Cons.prems(2,3) kv by (force simp: add_member_def set_insort_key)
  from Cons.IH [of "add_member (key_name k) (tree_of v) kids"] Cons.prems fresh
  show ?case by (simp add: kv k m)
qed

lemma insert_elems_fresh:
  assumes "\<forall>x \<in> set xs. writes_tree x" "idx + length xs \<le> 10" "length ts = idx"
  shows "insert_elems (Group (zip (map str_nat [0..<idx]) ts) a) idx xs =
     Inr (Group (zip (map str_nat [0..<idx + length xs]) (ts @ map tree_of xs)) a)"
  using assms
proof (induction xs arbitrary: idx ts)
  case Nil
  then show ?case by simp
next
  case (Cons x xs)
  let ?K = "zip (map str_nat [0..<idx]) ts"
  have lt: "\<forall>p \<in> set ?K. fst p < str_nat idx"
  proof
    fix p assume "p \<in> set ?K"
    then have "fst p \<in> set (map str_nat [0..<idx])"
      using set_zip_leftD [of "fst p" "snd p" "map str_nat [0..<idx]" ts] by simp
    then obtain j where "j < idx" "fst p = str_nat j" by auto
    with Cons.prems(2) show "fst p < str_nat idx" by (simp add: str_nat_less)
  qed
  then have "str_nat idx \<notin> fst ` set ?K" by auto
  then have none: "map_of ?K (str_nat idx) = None" by (simp add: map_of_eq_None_iff)
  from Cons.prems(1) have "writes_tree x" by simp
  with none have m: "insert_member (Group ?K a) (str_nat idx) x
      = Inr (Group (add_member (str_nat idx) (tree_of x) ?K) a)"
    by (simp add: writes_tree_def)
  have "add_member (str_nat idx) (tree_of x) ?K = ?K @ [(str_nat idx, tree_of x)]"
    unfolding add_member_def using lt by (intro insort_key_snoc) simp
  also have "\<dots> = zip (map str_nat [0..<Suc idx]) (ts @ [tree_of x])"
    using Cons.prems(3) by simp
  finally have K': "add_member (str_nat idx) (tree_of x) ?K
      = zip (map str_nat [0..<Suc idx]) (ts @ [tree_of x])" .
  from Cons.IH [of "Suc idx" "ts @ [tree_of x]"] Cons.prems
  have "insert_elems (Group (zip (map str_nat [0..<Suc idx]) (ts @ [tree_of x])) a) (Suc idx) xs =
     Inr (Group (zip (map str_nat [0..<Suc idx + length xs]) ((ts @ [tree_of x]) @ map tree_of xs)) a)"
    by simp
  moreover from Cons.prems(2) have "py_str (int idx) = Inr (str_nat idx)"
    by (intro py_str_index) simp
  ultimately show ?case by (simp add: m K')
qed

lemma update_fresh: "k \<notin> fst ` set al \<Longrightarrow> AList.update k v al = al @ [(k, v)]"
  by (induction al) auto

lemma fetch_items_fresh:
  assumes "\<forall>p \<in> set L. decodeKey (key_name (fst p)) = Inr (fst p) \<and>
             fetch_member (tree_of (snd p)) = Inr (by_stored_name (snd p), [])"
    and "distinct (map fst L)" and "\<forall>p \<in> set L. fst p \<notin> fst ` set target"
  shows "fetch_items (map (\<lambda>p. (key_name (fst p), tree_of (snd p))) L) target out =
     Inr (target @ map (\<lambda>p. (fst p, by_stored_name (snd p))) L, out)"
  using assms
proof (induction L arbitrary: target)
  case Nil
  then show ?case by simp
next
  case (Cons p L)
  from Cons.prems(3) have u: "AList.update (fst p) (by_stored_name (snd p)) target
      = target @ [(fst p, by_stored_name (snd p))]"
    by (intro update_fresh) simp
  have "\<forall>q \<in> set L. fst q \<notin> fst ` set (target @ [(fst p, by_stored_name (snd p))])"
  proof
    fix q assume q: "q \<in> set L"
    with Cons.prems(3) have 1: "fst q \<notin> fst ` set target" by simp
    from Cons.prems(2) have "fst p \<notin> fst ` set L" by simp
    with q have 2: "fst q \<noteq> fst p" by (metis imageI)
    from 1 2 show "fst q \<notin> fst ` set (target @ [(fst p, by_stored_name (snd p))])" by simp
  qed
  from Cons.IH [OF _ _ this] Cons.prems
  show ?case by (simp add: u)
qed

lemma fetch_elems_trees:
  assumes "\<forall>x \<in> set xs. fetch_member (tree_of x) = Inr (by_stored_name x, [])"
    and "length ns = length xs"
  shows "fetch_elems (zip ns (map tree_of xs)) target out
           = Inr (target @ map by_stored_name xs, out)"
  using assms
proof (induction xs arbitrary: ns target)
  case Nil
  then show ?case by simp
next
  case (Cons x xs)
  then obtain n ns' where ns: "ns = n # ns'" by (cases ns) auto
  with Cons show ?case by simp
qed

subsection \<open>The whole value\<close>

lemma writes_tree_leaf:
  assumes "within_limits v" "container_type v = None"
  shows "writes_tree v \<and> fetch_member (tree_of v) = Inr (by_stored_name v, [])"
proof -
  from pack_within_limits [OF assms] obtain d h where p: "pack v = Inr (d, h)" "has_hdf5_type d"
    "writable d" "tree_of v = Dataset d (Some h)" "unpack d (Some h) = Inr (v, [])"
    by blast
  have "by_stored_name v = v" using assms(2) by (cases v) simp_all
  with p show ?thesis
    using insert_leaf [OF assms(2) p(1) p(2) p(3)] by (simp add: writes_tree_def)
qed

lemma writes_tree_container:
  assumes "container_type v = Some h" "recursiveInsert (Group [] (Some h)) v = Inr (tree_of v)"
  shows "writes_tree v"
  unfolding writes_tree_def using insert_container [OF assms] by blast

lemma dict_written_and_read:
  assumes sup: "within_limits (VDict kvs)"
    and ih: "\<And>p. p \<in> set kvs \<Longrightarrow>
       writes_tree (snd p) \<and> fetch_member (tree_of (snd p)) = Inr (by_stored_name (snd p), [])"
  shows "recursiveInsert (Group [] (Some ''dict'')) (VDict kvs) = Inr (tree_of (VDict kvs))"
    and "fetch_member (tree_of (VDict kvs)) = Inr (by_stored_name (VDict kvs), [])"
proof -
  let ?g = "\<lambda>p. (key_name (fst p), tree_of (snd p))"
  let ?h = "\<lambda>p. (fst p, by_stored_name (snd p))"
  let ?L = "sort_key (\<lambda>p. key_name (fst p)) kvs"
  from sup have d: "distinct (map fst kvs)" and pk: "\<forall>p \<in> set kvs. plain_key (fst p)"
    by (simp_all add: list_all_iff)
  from sup have dn: "distinct (map (\<lambda>p. key_name (fst p)) kvs)"
    by (intro distinct_key_names) simp_all
  have "insert_items (Group [] (Some ''dict'')) kvs =
     Inr (Group (foldl (\<lambda>K p. add_member (key_name (fst p)) (tree_of (snd p)) K) [] kvs)
            (Some ''dict''))"
    using pk ih dn by (intro insert_items_fresh) simp_all
  moreover have "foldl (\<lambda>K p. add_member (key_name (fst p)) (tree_of (snd p)) K) [] kvs
       = foldl (\<lambda>K q. insort_key fst q K) [] (map ?g kvs)"
    by (simp add: foldl_map add_member_def)
  moreover have "\<dots> = sort_key fst (map ?g kvs)"
    using dn by (intro foldl_insort_sort) (simp add: comp_def)
  ultimately show "recursiveInsert (Group [] (Some ''dict'')) (VDict kvs) = Inr (tree_of (VDict kvs))"
    by (simp add: recursiveInsert.simps)
  have m: "sort_key fst (map ?g kvs) = map ?g ?L"
    by (simp add: sort_key_map)
  have dl: "distinct (map fst ?L)"
    using d by (simp add: distinct_map)
  have "fetch_items (map ?g ?L) [] [] = Inr ([] @ map ?h ?L, [])"
    using pk ih dl by (intro fetch_items_fresh) (simp_all add: decodeKey_key_name)
  moreover have "sort_key (\<lambda>p. key_name (fst p)) (map ?h kvs) = map ?h ?L"
    by (simp add: sort_key_map)
  ultimately show "fetch_member (tree_of (VDict kvs)) = Inr (by_stored_name (VDict kvs), [])"
    by (simp add: m)
qed

lemma sequence_written_and_read:
  assumes len: "length xs \<le> 10"
    and ih: "\<And>x. x \<in> set xs \<Longrightarrow>
       writes_tree x \<and> fetch_member (tree_of x) = Inr (by_stored_name x, [])"
  shows "insert_elems (Group [] a) 0 xs
           = Inr (Group (zip (map str_nat [0..<length xs]) (map tree_of xs)) a)"
    and "fetch_elems (zip (map str_nat [0..<length xs]) (map tree_of xs)) [] []
           = Inr (map by_stored_name xs, [])"
proof -
  from insert_elems_fresh [of xs 0 "[]" a] len ih
  show "insert_elems (Group [] a) 0 xs
           = Inr (Group (zip (map str_nat [0..<length xs]) (map tree_of xs)) a)"
    by simp
  from fetch_elems_trees [of xs "map str_nat [0..<length xs]" "[]" "[]"] ih
  show "fetch_elems (zip (map str_nat [0..<length xs]) (map tree_of xs)) [] []
           = Inr (map by_stored_name xs, [])"
    by simp
qed

lemma written_and_read:
  "within_limits v \<Longrightarrow>
   writes_tree v \<and> fetch_member (tree_of v) = Inr (by_stored_name v, []) \<and>
   (\<forall>h. container_type v = Some h \<longrightarrow>
      recursiveInsert (Group [] (Some h)) v = Inr (tree_of v))"
proof (induction v)
  case (VDict kvs)
  have ih: "\<And>p. p \<in> set kvs \<Longrightarrow>
       writes_tree (snd p) \<and> fetch_member (tree_of (snd p)) = Inr (by_stored_name (snd p), [])"
  proof -
    fix p assume p: "p \<in> set kvs"
    with VDict.prems have "within_limits (snd p)" by (simp add: list_all_iff)
    moreover have "snd p \<in> Basic_BNFs.snds p" by (cases p) simp
    ultimately show "writes_tree (snd p) \<and>
        fetch_member (tree_of (snd p)) = Inr (by_stored_name (snd p), [])"
      using VDict.IH [OF p] by blast
  qed
  note r = dict_written_and_read [OF VDict.prems ih]
  have "writes_tree (VDict kvs)"
    using r(1) by (intro writes_tree_container [where h = "''dict''"]) simp_all
  with r show ?case by simp
next
  case (VList xs)
  then have ih: "\<And>x. x \<in> set xs \<Longrightarrow>
       writes_tree x \<and> fetch_member (tree_of x) = Inr (by_stored_name x, [])"
    by (simp add: list_all_iff)
  from VList.prems have len: "length xs \<le> 10" by simp
  note r = sequence_written_and_read [OF len ih]
  have w: "recursiveInsert (Group [] (Some ''list'')) (VList xs) = Inr (tree_of (VList xs))"
    using r(1) by (simp add: recursiveInsert.simps)
  have "writes_tree (VList xs)"
    using w by (intro writes_tree_container [where h = "''list''"]) simp_all
  with r w show ?case by simp
next
  case (VTuple xs)
  then have ih: "\<And>x. x \<in> set xs \<Longrightarrow>
       writes_tree x \<and> fetch_member (tree_of x) = Inr (by_stored_name x, [])"
    by (simp add: list_all_iff)
  from VTuple.prems have len: "length xs \<le> 10" by simp
  note r = sequence_written_and_read [OF len ih]
  have w: "recursiveInsert (Group [] (Some ''tuple'')) (VTuple xs) = Inr (tree_of (VTuple xs))"
    using r(1) by (simp add: recursiveInsert.simps)
  have "writes_tree (VTuple xs)"
    using w by (intro writes_tree_container [where h = "''tuple''"]) simp_all
  with r w show ?case by simp
next
  case VNone
  then show ?case using writes_tree_leaf [of VNone] by simp
next
  case (VBool b)
  then show ?case using writes_tree_leaf [of "VBool b"] by simp
next
  case (VInt i)
  then show ?case using writes_tree_leaf [of "VInt i"] by simp
next
  case (VFloat x)
  then show ?case using writes_tree_leaf [of "VFloat x"] by simp
next
  case (VStr s)
  then show ?case using writes_tree_leaf [of "VStr s"] by simp
next
  case (VTensor sh es)
  then show ?case using writes_tree_leaf [of "VTensor sh es"] by simp
next
  case (VRaw p)
  then show ?case by simp
next
  case VOther
  then show ?case by simp
qed

lemma same_value_by_stored_name: "within_limits v \<Longrightarrow> same_value (by_stored_name v) v"
proof (induction v)
  case (VDict kvs)
  let ?h = "\<lambda>p. (fst p, by_stored_name (snd p))"
  from VDict.prems have d: "distinct (map fst kvs)" by simp
  have "list_all (\<lambda>p. case map_of kvs (fst p) of None \<Rightarrow> False
                        | Some w \<Rightarrow> same_value (snd p) w) (map ?h kvs)"
    unfolding list_all_iff
  proof
    fix q assume "q \<in> set (map ?h kvs)"
    then obtain p where p: "p \<in> set kvs" "q = ?h p" by auto
    from p(1) d have m: "map_of kvs (fst p) = Some (snd p)" by simp
    from p(1) VDict.prems have "within_limits (snd p)" by (simp add: list_all_iff)
    moreover have "snd p \<in> Basic_BNFs.snds p" by (cases p) simp
    ultimately have "same_value (by_stored_name (snd p)) (snd p)"
      using VDict.IH [OF p(1)] by blast
    with m p(2) show "case map_of kvs (fst q) of None \<Rightarrow> False
                        | Some w \<Rightarrow> same_value (snd q) w" by simp
  qed
  then show ?case by (simp add: list_all_iff)
next
  case (VList xs)
  then show ?case by (simp add: list_all2_map1 list_all_iff list_all2_same)
next
  case (VTuple xs)
  then show ?case by (simp add: list_all2_map1 list_all_iff list_all2_same)
qed simp_all

text \<open>
  What the module does carry through the file. Let \<open>v\<close> be a dict, a list or a tuple
  within the limits above. Then \<open>fromDict\<close> of \<open>v\<close> into an empty group succeeds, and
  \<open>toDict\<close> on the result prints nothing and returns \<open>v\<close> with the entries of every dict
  in the ascending order of their stored names, which is the same value as \<open>v\<close>: lists
  stay lists and tuples stay tuples with their elements in order, and every dict keeps
  its keys (integer keys and the empty text among them) with the same value for each.
\<close>

lemma roundtrip_within_limits:
  assumes "within_limits v" "container_type v \<noteq> None"
  shows "roundtrip (Group [] a) v = Inr (by_stored_name v, []) \<and>
         same_value (by_stored_name v) v"
proof -
  from assms(2) obtain h where h: "container_type v = Some h" by auto
  from written_and_read [OF assms(1)] h
  have w: "recursiveInsert (Group [] (Some h)) v = Inr (tree_of v)"
    and f: "fetch_member (tree_of v) = Inr (by_stored_name v, [])"
    by simp_all
  from h have "is_group (tree_of v)" by (cases v) simp_all
  then have "recursiveFetch (tree_of v) = fetch_member (tree_of v)"
    by (cases "tree_of v") simp_all
  with w f h have "roundtrip (Group [] a) v = Inr (by_stored_name v, [])"
    by (simp add: roundtrip_def fromDict_def toDict_def)
  with same_value_by_stored_name [OF assms(1)] show ?thesis by simp
qed

text \<open>The scenario of the specification: \<open>{"": 1, 0: "x", "k": [1, 2.5, None]}\<close>.\<close>

lemma roundtrip_of_the_scenario:
  "roundtrip (Group [] None)
     (VDict [(KStr [], VInt 1), (KInt 0, VStr ''x''),
             (KStr ''k'', VList [VInt 1, VFloat 0x4004000000000000, VNone])])
   = Inr (VDict [(KStr [], VInt 1), (KInt 0, VStr ''x''),
                 (KStr ''k'', VList [VInt 1, VFloat 0x4004000000000000, VNone])], [])"
  by code_simp

text \<open>
  C1. \<open>toDict\<close> is to return the data structure that \<open>fromDict\<close> was given, and the
  claim says that it does, with the elements of every list and tuple in their order. It
  does not for a list or tuple of more than ten elements. \<open>fromDict\<close> names the members
  \<open>str(idx)\<close> (lines 166 to 186), \<open>toDict\<close> appends the members in the order of the loop
  \<open>for i in position\<close> (lines 78 to 83), which goes by name, and the name \<open>10\<close> comes
  before the name \<open>2\<close>. So the dict \<open>{"k": [0, 1, 2, 3, 4, 5, 6, 7, 8, 9, 10]}\<close> comes
  back as \<open>{"k": [0, 1, 10, 2, 3, 4, 5, 6, 7, 8, 9]}\<close>, and the list alone likewise.
\<close>

theorem list_of_eleven_comes_back_permuted:
  "roundtrip (Group [] None)
     (VDict [(KStr ''k'',
        VList [VInt 0, VInt 1, VInt 2, VInt 3, VInt 4, VInt 5, VInt 6, VInt 7, VInt 8,
               VInt 9, VInt 10])])
     = Inr (VDict [(KStr ''k'',
        VList [VInt 0, VInt 1, VInt 10, VInt 2, VInt 3, VInt 4, VInt 5, VInt 6, VInt 7,
               VInt 8, VInt 9])], []) \<and>
   roundtrip (Group [] None)
     (VList [VInt 0, VInt 1, VInt 2, VInt 3, VInt 4, VInt 5, VInt 6, VInt 7, VInt 8, VInt 9,
             VInt 10])
     = Inr (VList [VInt 0, VInt 1, VInt 10, VInt 2, VInt 3, VInt 4, VInt 5, VInt 6, VInt 7,
                   VInt 8, VInt 9], [])"
  by code_simp

section \<open>Where the module does not do what it sets out to do\<close>

text \<open>
  C4. Writing the dict \<open>{"a": 5}\<close> into an empty group succeeds; writing it a second
  time into the same group raises, since \<open>create_dataset\<close> finds the name taken and
  \<open>recursiveInsert\<close> does not delete the old dataset first, as \<open>insert\<close> does.
\<close>

theorem second_fromDict_raises:
  "fromDict (Group [] None) (VDict [(KStr ''a'', VInt 5)])
     = Inr (Group [(''a'', Dataset (Array [] [SInt 5]) (Some ''int''))] (Some ''dict'')) \<and>
   fromDict (Group [(''a'', Dataset (Array [] [SInt 5]) (Some ''int''))] (Some ''dict''))
     (VDict [(KStr ''a'', VInt 5)]) = Inl NameExists \<and>
   insert_h5 (Group [(''a'', Dataset (Array [] [SInt 5]) (Some ''int''))] (Some ''dict''))
     [] [''a''] (Array [] [SInt 6])
     = Inr (Group [(''a'', Dataset (Array [] [SInt 6]) None)] (Some ''dict''))"
  by code_simp

lemma climb_root_loops:
  assumes "no_members (node_at f []) = Inr True"
  shows "climb f [] = None"
proof (rule ccontr)
  assume "climb f [] \<noteq> None"
  then obtain y where y: "climb f [] = Some y" by auto
  have "\<not> (f = f \<and> ([]::string list) = [])"
  proof (rule climb.raw_induct [where P = "\<lambda>a b c. \<not> (a = f \<and> b = [])", OF _ y], goal_cases)
    case (1 climb' fl position z)
    show ?case
    proof
      assume a: "fl = f \<and> position = []"
      with 1(2) assms have "climb' f [] = Some z" by simp
      with 1(1) show False by blast
    qed
  qed
  then show False by simp
qed

text \<open>
  C5. In a file that holds the groups \<open>A\<close>, \<open>A/B\<close> and the dataset \<open>A/B/C\<close>, the
  recursive \<open>delete\<close> of \<open>["A", "B", "C"]\<close> removes \<open>C\<close> only: the groups \<open>B\<close> and \<open>A\<close>
  are still there, \<open>B\<close> without members. And when the deleted node was the only member
  of the root group, the loop never ends.
\<close>

theorem recursive_delete_removes_one_node:
  "delete (Group [(''A'', Group [(''B'', Group [(''C'', Dataset (Array [] [SInt 1]) None)]
                                         None)] None)] None)
     [] [''A'', ''B'', ''C''] True
     = Some (Inr (Group [(''A'', Group [(''B'', Group [] None)] None)] None)) \<and>
   delete (Group [(''C'', Dataset (Array [] [SInt 1]) None)] None) [] [''C''] True = None"
proof
  show "delete (Group [(''A'', Group [(''B'', Group [(''C'', Dataset (Array [] [SInt 1]) None)]
                                         None)] None)] None)
     [] [''A'', ''B'', ''C''] True
     = Some (Inr (Group [(''A'', Group [(''B'', Group [] None)] None)] None))"
    by (simp add: delete_def climb.simps)
  show "delete (Group [(''C'', Dataset (Array [] [SInt 1]) None)] None) [] [''C''] True = None"
    by (simp add: delete_def climb_root_loops)
qed

text \<open>
  C6. At the top level \<open>fromDict\<close> writes nothing and raises nothing for a value that is
  not a dict, a list or a tuple, whatever its class; the same value inside a container
  raises the \<open>ValueError\<close> of \<open>pack\<close>.
\<close>

theorem top_level_value_is_skipped:
  "fromDict grp VOther = Inr grp \<and>
   insert_member (Group kids a) name VOther
     = Inl (ValueError ''Invalid data type for serialization'')"
  by (simp add: fromDict_def recursiveInsert.simps insert_member.simps pack_def)

end
